theory Spec2Isabelle
  imports Main "HOL-Library.AList" "HOL-Library.Multiset"
begin

section \<open>JavaScript values\<close>

text \<open>
  The controller is dynamically typed: responses of the account service, error values,
  addresses and the contents of the observable stores are arbitrary JavaScript values.
  They are modelled by one datatype. Numbers are the integers (no fractions, no NaN), a
  \<open>Date\<close> is its time value in milliseconds, an array is the list of its elements and a
  plain object is the list of its own enumerable properties in insertion order.
  Functions and symbols are not values of the model. The properties an object inherits
  from its prototype are functions; \<open>getprop\<close> reads own properties, and the two places
  where the code meets the inherited names, the lookup in \<open>nonceMap\<close> and the operator
  \<open>in\<close> of the \<open>deepmerge\<close> library, take them from \<open>Object_prototype_keys\<close> below.
\<close>

datatype jsval =
    JUndefined
  | JNull
  | JBool bool
  | JNum int
  | JStr string
  | JDate int
  | JArr "jsval list"
  | JObj "(string \<times> jsval) list"

text \<open>What a \<open>throw\<close>, a rejected promise or a failing built-in raises.\<close>

datatype exn =
    TypeError
  | Rejected jsval
  | Error string

text \<open>ToBoolean: what \<open>if (v)\<close>, \<open>!v\<close>, \<open>a || b\<close> and \<open>a && b\<close> test.\<close>

fun truthy :: "jsval \<Rightarrow> bool" where
  "truthy JUndefined = False"
| "truthy JNull = False"
| "truthy (JBool b) = b"
| "truthy (JNum n) = (n \<noteq> 0)"
| "truthy (JStr s) = (s \<noteq> [])"
| "truthy (JDate t) = True"
| "truthy (JArr xs) = True"
| "truthy (JObj kvs) = True"

text \<open>\<open>a || b\<close> on values.\<close>

definition js_or :: "jsval \<Rightarrow> jsval \<Rightarrow> jsval" where
  "js_or a b = (if truthy a then a else b)"

fun nullish :: "jsval \<Rightarrow> bool" where
  "nullish JUndefined = True"
| "nullish JNull = True"
| "nullish v = False"

text \<open>
  \<open>v.k\<close> for a value \<open>v\<close> that is neither \<open>null\<close> nor \<open>undefined\<close>: the own property of an
  object, \<open>undefined\<close> when there is none. (On \<open>null\<close> and \<open>undefined\<close> the access raises a
  TypeError; a function that can meet one tests \<open>nullish\<close> first.)
\<close>

fun getprop :: "jsval \<Rightarrow> string \<Rightarrow> jsval" where
  "getprop (JObj kvs) k = (case map_of kvs k of None \<Rightarrow> JUndefined | Some v \<Rightarrow> v)"
| "getprop v k = JUndefined"

text \<open>Optional chaining \<open>v?.k\<close>.\<close>

definition getprop_opt :: "jsval \<Rightarrow> string \<Rightarrow> jsval" where
  "getprop_opt v k = (if nullish v then JUndefined else getprop v k)"

text \<open>
  \<open>a === b\<close>. Primitives are compared by value. Objects, arrays and dates are compared
  by reference; the values the controller compares come from different places (an
  argument and a copy kept in the store), so two of them are never the same object.
\<close>

fun is_primitive :: "jsval \<Rightarrow> bool" where
  "is_primitive (JDate t) = False"
| "is_primitive (JArr xs) = False"
| "is_primitive (JObj kvs) = False"
| "is_primitive v = True"

definition strict_eq :: "jsval \<Rightarrow> jsval \<Rightarrow> bool" where
  "strict_eq a b = (is_primitive a \<and> a = b)"

text \<open>\<open>typeof v === 'string'\<close> and \<open>typeof v === 'object'\<close>.\<close>

fun typeof_string :: "jsval \<Rightarrow> bool" where
  "typeof_string (JStr s) = True"
| "typeof_string v = False"

fun typeof_object :: "jsval \<Rightarrow> bool" where
  "typeof_object JNull = True"
| "typeof_object (JDate t) = True"
| "typeof_object (JArr xs) = True"
| "typeof_object (JObj kvs) = True"
| "typeof_object v = False"

text \<open>The decimal text of a number, for ToString.\<close>

definition digit_char :: "nat \<Rightarrow> char" where
  "digit_char d = ''0123456789'' ! d"

fun decimal :: "nat \<Rightarrow> string \<Rightarrow> string" where
  "decimal n acc =
     (if 10 \<le> n then decimal (n div 10) (digit_char (n mod 10) # acc)
      else digit_char n # acc)"

declare decimal.simps [simp del]

definition number_text :: "int \<Rightarrow> string" where
  "number_text i = (if 0 \<le> i then decimal (nat i) [] else CHR ''-'' # decimal (nat (- i)) [])"

fun join_comma :: "string list \<Rightarrow> string" where
  "join_comma [] = []"
| "join_comma [s] = s"
| "join_comma (s # t # ss) = s @ '','' @ join_comma (t # ss)"

text \<open>
  ToString, as a template literal and a computed property key apply it. The text of a
  \<open>Date\<close> depends on the time zone of the host; the model writes its time value. The
  controller never converts a \<open>Date\<close> to a string.
\<close>

fun js_string :: "jsval \<Rightarrow> string" where
  "js_string JUndefined = ''undefined''"
| "js_string JNull = ''null''"
| "js_string (JBool b) = (if b then ''true'' else ''false'')"
| "js_string (JNum n) = number_text n"
| "js_string (JStr s) = s"
| "js_string (JDate t) = ''Date '' @ number_text t"
| "js_string (JArr xs) = join_comma (map (\<lambda>x. if nullish x then [] else js_string x) xs)"
| "js_string (JObj kvs) = ''[object Object]''"

text \<open>\<open>String.prototype.toLowerCase\<close>, on the ASCII letters.\<close>

definition lower_char :: "char \<Rightarrow> char" where
  "lower_char c =
     (if 65 \<le> (of_char c :: nat) \<and> (of_char c :: nat) \<le> 90 then char_of ((of_char c :: nat) + 32) else c)"

definition toLowerCase :: "string \<Rightarrow> string" where
  "toLowerCase s = map lower_char s"

text \<open>
  \<open>v.toLowerCase()\<close> for an arbitrary value: only a string has the method, every other
  value raises a TypeError (\<open>null\<close> and \<open>undefined\<close> at the property access, the rest at
  the call).
\<close>

fun call_toLowerCase :: "jsval \<Rightarrow> exn + string" where
  "call_toLowerCase (JStr s) = Inr (toLowerCase s)"
| "call_toLowerCase v = Inl TypeError"

section \<open>Inherited property names\<close>

text \<open>
  The names of the properties every plain object inherits from \<open>Object.prototype\<close>
  (ECMAScript, with the accessors of its Annex B). All of them are functions, except
  \<open>__proto__\<close>, whose value is \<open>Object.prototype\<close> itself: each is truthy, and none is an
  array.
\<close>

definition Object_prototype_keys :: "string list" where
  "Object_prototype_keys =
     [''constructor'', ''__defineGetter__'', ''__defineSetter__'', ''hasOwnProperty'',
      ''__lookupGetter__'', ''__lookupSetter__'', ''isPrototypeOf'', ''propertyIsEnumerable'',
      ''toString'', ''valueOf'', ''__proto__'', ''toLocaleString'']"

text \<open>The names a \<open>Date\<close> inherits from \<open>Date.prototype\<close>, before those of \<open>Object.prototype\<close>.\<close>

definition Date_prototype_keys :: "string list" where
  "Date_prototype_keys =
     [''constructor'', ''toString'', ''toDateString'', ''toTimeString'', ''toISOString'',
      ''toUTCString'', ''toGMTString'', ''getDate'', ''setDate'', ''getDay'', ''getFullYear'',
      ''setFullYear'', ''getHours'', ''setHours'', ''getMilliseconds'', ''setMilliseconds'',
      ''getMinutes'', ''setMinutes'', ''getMonth'', ''setMonth'', ''getSeconds'', ''setSeconds'',
      ''getTime'', ''setTime'', ''getTimezoneOffset'', ''getUTCDate'', ''setUTCDate'',
      ''getUTCDay'', ''getUTCFullYear'', ''setUTCFullYear'', ''getUTCHours'', ''setUTCHours'',
      ''getUTCMilliseconds'', ''setUTCMilliseconds'', ''getUTCMinutes'', ''setUTCMinutes'',
      ''getUTCMonth'', ''setUTCMonth'', ''getUTCSeconds'', ''setUTCSeconds'', ''valueOf'',
      ''getYear'', ''setYear'', ''toJSON'', ''toLocaleString'', ''toLocaleDateString'',
      ''toLocaleTimeString'']"

section \<open>The \<open>deepmerge\<close> library\<close>

text \<open>
  The controller imports \<open>deepmerge\<close> from the package of that name; the model follows the
  code of its version 4.2.2 (\<open>mergeObject\<close>, \<open>propertyIsOnObject\<close>, \<open>propertyIsUnsafe\<close>,
  \<open>cloneUnlessOtherwiseSpecified\<close>, \<open>deepmerge\<close>), for the one way the controller calls it:
  \<open>deepmerge(target, source, { arrayMerge: overwriteMerge })\<close> with a source that is a
  plain object, given by its properties. The library's default \<open>isMergeableObject\<close> accepts
  arrays and plain objects and refuses \<open>null\<close>, primitives and dates. With
  \<open>overwriteMerge = (destinationArray, sourceArray, _) => sourceArray\<close> a source array
  replaces whatever the target has, and is not copied.
\<close>

fun isMergeableObject :: "jsval \<Rightarrow> bool" where
  "isMergeableObject (JArr xs) = True"
| "isMergeableObject (JObj kvs) = True"
| "isMergeableObject v = False"

fun is_array :: "jsval \<Rightarrow> bool" where
  "is_array (JArr xs) = True"
| "is_array v = False"

text \<open>
  \<^verbatim>\<open>try { return property in object } catch (_) { return false }\<close>. The operator finds own
  and inherited properties, and raises on a primitive, on \<open>null\<close> and on \<open>undefined\<close>.
  \<open>mergeObject\<close> is never entered with an array as its target (\<open>deepmerge\<close> sends a target
  array with a source object to the copy of the source), so arrays have no equation of
  their own.
\<close>

fun propertyIsOnObject :: "jsval \<Rightarrow> string \<Rightarrow> bool" where
  "propertyIsOnObject (JObj kvs) k = (k \<in> set (map fst kvs) \<or> k \<in> set Object_prototype_keys)"
| "propertyIsOnObject (JDate t) k = (k \<in> set Date_prototype_keys \<or> k \<in> set Object_prototype_keys)"
| "propertyIsOnObject v k = False"

text \<open>
  \<^verbatim>\<open>Object.hasOwnProperty.call(target, key) && Object.propertyIsEnumerable.call(target, key)\<close>,
  which \<open>propertyIsUnsafe\<close> evaluates only after \<open>propertyIsOnObject\<close> has held.
\<close>

fun ownEnumerable :: "jsval \<Rightarrow> string \<Rightarrow> bool" where
  "ownEnumerable (JObj kvs) k = (k \<in> set (map fst kvs))"
| "ownEnumerable v k = False"

text \<open>
  The guard against merging up the prototype chain: a key of the source that the target
  has, but not as an own enumerable property, is skipped.
\<close>

definition propertyIsUnsafe :: "jsval \<Rightarrow> string \<Rightarrow> bool" where
  "propertyIsUnsafe target k = (propertyIsOnObject target k \<and> \<not> ownEnumerable target k)"

fun own_entries :: "jsval \<Rightarrow> (string \<times> jsval) list" where
  "own_entries (JObj kvs) = kvs"
| "own_entries v = []"

text \<open>
  \<open>destination[key] = value\<close> on the object under construction, which starts as \<open>{}\<close>.
  An assignment to \<open>__proto__\<close> goes to the inherited setter and creates no property
  (what the result then inherits is outside the model).
\<close>

definition setProperty :: "string \<Rightarrow> jsval \<Rightarrow> (string \<times> jsval) list \<Rightarrow> (string \<times> jsval) list" where
  "setProperty k v destination =
     (if k = ''__proto__'' then destination else AList.update k v destination)"

lemma size_entries_less: "size_list (\<lambda>kv. size (snd kv)) kvs < size (JObj kvs)"
  by (induction kvs) (auto simp: less_Suc_eq_le)

lemma size_entry_less:
  "kv \<in> set source \<Longrightarrow> size (snd kv) < size_list (\<lambda>kv. size (snd kv)) source"
  by (induction source) auto

lemma size_prod_entry_less:
  "kv \<in> set kvs \<Longrightarrow> Suc (size (snd kv)) < size_list (size_prod (\<lambda>x. 0) size) kvs"
  by (induction kvs) auto

lemma size_own_entry_less: "kv \<in> set (own_entries target) \<Longrightarrow> Suc (size (snd kv)) < size target"
  by (cases target) (auto dest: size_prod_entry_less)

lemma size_getprop_le: "size (getprop target k) \<le> size target"
proof (cases target)
  case (JObj kvs)
  show ?thesis
  proof (cases "map_of kvs k")
    case None
    then show ?thesis using JObj by simp
  next
    case (Some v)
    then have "(k, v) \<in> set (own_entries target)" using JObj by (simp add: map_of_SomeD)
    then show ?thesis using size_own_entry_less[of "(k, v)" target] JObj Some by simp
  qed
qed simp_all

text \<open>
  \<open>mergeObject(target, source, options)\<close>, as the list of the properties of the object
  it returns. \<open>destination\<close> first receives the copies of the own properties of a mergeable
  target, then the properties of the source in their order: an unsafe key is skipped; a
  key the target has, with a mergeable value in the source, receives
  \<open>deepmerge(target[key], source[key])\<close>; every other key receives the copy of the source's
  value. The copy of a plain object \<open>v\<close> is \<open>deepmerge({}, v)\<close>, that is
  \<open>mergeObject({}, v)\<close>; the copy of an array under \<open>overwriteMerge\<close> is the array, and every
  other value is its own copy. \<open>deepmerge(t, v)\<close> for a plain object \<open>v\<close> is the copy of \<open>v\<close>
  when \<open>t\<close> is an array and \<open>mergeObject(t, v)\<close> otherwise; for an array \<open>v\<close> it is \<open>v\<close>.
\<close>

function mergeObject :: "jsval \<Rightarrow> (string \<times> jsval) list \<Rightarrow> (string \<times> jsval) list" where
  "mergeObject target source =
     fold
       (\<lambda>kv destination.
          if propertyIsUnsafe target (fst kv) then destination
          else setProperty (fst kv)
                 (if propertyIsOnObject target (fst kv) \<and> isMergeableObject (snd kv)
                  then (case snd kv of
                          JObj kvs \<Rightarrow>
                            (if is_array (getprop target (fst kv))
                             then JObj (mergeObject (JObj []) kvs)
                             else JObj (mergeObject (getprop target (fst kv)) kvs))
                        | v \<Rightarrow> v)
                  else (case snd kv of
                          JObj kvs \<Rightarrow> JObj (mergeObject (JObj []) kvs)
                        | v \<Rightarrow> v))
                 destination)
       source
       (fold
          (\<lambda>kv destination.
             setProperty (fst kv)
               (case snd kv of
                  JObj kvs \<Rightarrow> JObj (mergeObject (JObj []) kvs)
                | v \<Rightarrow> v)
               destination)
          (own_entries target)
          [])"
  by pat_completeness auto
termination
proof (relation "measure (\<lambda>(t, s). size t + size_list (\<lambda>kv. size (snd kv)) s)")
  show "wf (measure (\<lambda>(t, s). size t + size_list (\<lambda>kv. size (snd kv)) s))" by simp
next
  fix target :: jsval and source kvs :: "(string \<times> jsval) list" and kv :: "string \<times> jsval"
  assume "kv \<in> set (own_entries target)" and "snd kv = JObj kvs"
  then show "((JObj [], kvs), (target, source))
      \<in> measure (\<lambda>(t, s). size t + size_list (\<lambda>kv. size (snd kv)) s)"
    using size_entries_less[of kvs] size_own_entry_less[of kv target] by simp
next
  fix target :: jsval and source kvs :: "(string \<times> jsval) list" and kv :: "string \<times> jsval"
  assume "kv \<in> set source" and "snd kv = JObj kvs"
    and "propertyIsOnObject target (fst kv) \<and> isMergeableObject (snd kv)"
    and "is_array (getprop target (fst kv))"
  then show "((JObj [], kvs), (target, source))
      \<in> measure (\<lambda>(t, s). size t + size_list (\<lambda>kv. size (snd kv)) s)"
    using size_entries_less[of kvs] size_entry_less[of kv source] by (cases target) auto
next
  fix target :: jsval and source kvs :: "(string \<times> jsval) list" and kv :: "string \<times> jsval"
  assume "kv \<in> set source" and "snd kv = JObj kvs"
  then show "((getprop target (fst kv), kvs), (target, source))
      \<in> measure (\<lambda>(t, s). size t + size_list (\<lambda>kv. size (snd kv)) s)"
    using size_entries_less[of kvs] size_entry_less[of kv source] size_getprop_le[of target "fst kv"]
    by simp
next
  fix target :: jsval and source kvs :: "(string \<times> jsval) list" and kv :: "string \<times> jsval"
  assume "kv \<in> set source" and "snd kv = JObj kvs"
    and "\<not> (propertyIsOnObject target (fst kv) \<and> isMergeableObject (snd kv))"
  then show "((JObj [], kvs), (target, source))
      \<in> measure (\<lambda>(t, s). size t + size_list (\<lambda>kv. size (snd kv)) s)"
    using size_entries_less[of kvs] size_entry_less[of kv source] by simp
qed

declare mergeObject.simps [simp del]

text \<open>\<open>cloneUnlessOtherwiseSpecified(value, options)\<close>, the copy.\<close>

definition cloneUnlessOtherwiseSpecified :: "jsval \<Rightarrow> jsval" where
  "cloneUnlessOtherwiseSpecified v =
     (case v of JObj kvs \<Rightarrow> JObj (mergeObject (JObj []) kvs) | u \<Rightarrow> u)"

text \<open>
  \<open>deepmerge(target, source, options)\<close> for a source that is a plain object: the copy of
  the source when the target is an array, \<open>mergeObject\<close> otherwise.
\<close>

definition deepmerge :: "jsval \<Rightarrow> (string \<times> jsval) list \<Rightarrow> jsval" where
  "deepmerge target source =
     (if is_array target then cloneUnlessOtherwiseSpecified (JObj source)
      else JObj (mergeObject target source))"

text \<open>
  The values whose copy is the same value (lemma \<open>clone_ordinaryKeys\<close> below): no plain
  object in them, outside the arrays, has a property named like one that
  \<open>Object.prototype\<close> provides. The second conjunct is the well-formedness of the
  representation of an object, that no key occurs twice.
\<close>

function (sequential) ordinaryKeys :: "jsval \<Rightarrow> bool" where
  "ordinaryKeys (JObj kvs) =
     (distinct (map fst kvs) \<and>
      (\<forall>kv\<in>set kvs. fst kv \<notin> set Object_prototype_keys \<and> ordinaryKeys (snd kv)))"
| "ordinaryKeys v = True"
  by pat_completeness auto
termination
  by (relation "measure size") (auto dest: size_prod_entry_less)

section \<open>Nonce collisions: \<open>cancelTxCalculate\<close>\<close>

text \<open>
  A formatted past transaction, as \<open>formatPastTx\<close> builds it and \<open>cancelTxCalculate\<close>
  reads and writes it. The routine uses \<open>x.nonce\<close> only as a property key of \<open>nonceMap\<close>:
  \<open>nonce\<close> is that key, the string the nonce converts to (the number \<open>5\<close> and the string
  \<open>'5'\<close> are one key). \<open>date\<close> is the time value of the \<open>Date\<close> object, a valid date, so
  that \<open>b.date - a.date\<close> is a number. A field the object does not have reads as
  \<open>JUndefined\<close>. \<open>other\<close> holds the fields the routine never touches (\<open>id\<close>, \<open>from\<close>, \<open>to\<close>,
  \<open>transaction_hash\<close>, ...).
\<close>

record tx =
  nonce :: string
  date :: int
  status :: jsval
  etherscanLink :: jsval
  gas :: jsval
  gasPrice :: jsval
  is_cancel :: jsval
  hasCancel :: jsval
  cancelDateInitiated :: jsval
  cancelGas :: jsval
  cancelGasPrice :: jsval
  other :: "(string \<times> jsval) list"

text \<open>
  \<open>pastTx\<close> is an array of distinct objects, and the arrays stored in \<open>nonceMap\<close> hold
  references to the same objects. An object is identified by its position in \<open>pastTx\<close>:
  the groups of \<open>nonceMap\<close> are lists of positions, and a write through a group is a write
  into the list at that position.
\<close>

type_synonym nonce_map = "(string \<times> nat list) list"

text \<open>
  The body of the first loop:
  \<^verbatim>\<open>if (!nonceMap[x.nonce]) nonceMap[x.nonce] = [x] else nonceMap[x.nonce].push(x)\<close>.
  \<open>nonceMap\<close> starts as \<open>{}\<close>, a plain object, so the lookup finds an own property or
  one inherited from \<open>Object.prototype\<close>. An own property is a group, and \<open>x\<close> is pushed
  to it; the key keeps its place. An inherited property is truthy and has no \<open>push\<close>:
  the call raises a TypeError. For every other key the lookup gives \<open>undefined\<close> and the
  key is appended with the group \<open>[x]\<close>.
\<close>

definition nonceMap_add :: "string \<Rightarrow> nat \<Rightarrow> nonce_map \<Rightarrow> exn + nonce_map" where
  "nonceMap_add k i m =
     (case map_of m k of
        Some g \<Rightarrow> Inr (AList.update k (g @ [i]) m)
      | None \<Rightarrow>
          if k \<in> set Object_prototype_keys then Inl TypeError
          else Inr (m @ [(k, [i])]))"

text \<open>The first loop; an exception ends it.\<close>

definition build_nonceMap :: "tx list \<Rightarrow> exn + nonce_map" where
  "build_nonceMap pastTx =
     fold (\<lambda>i r. case r of Inl error \<Rightarrow> Inl error
                         | Inr m \<Rightarrow> nonceMap_add (nonce (pastTx ! i)) i m)
       [0..<length pastTx] (Inr [])"

text \<open>
  \<^verbatim>\<open>value.sort((a, b) => b.date - a.date)\<close>: a sort by descending date, that is, by
  ascending negated date. \<open>Array.prototype.sort\<close> is stable (ECMAScript 2019), and so is
  \<open>sort_key\<close>: transactions with the same date keep their order.
\<close>

definition sort_latest_first :: "tx list \<Rightarrow> nat list \<Rightarrow> nat list" where
  "sort_latest_first xs g = sort_key (\<lambda>i. - date (xs ! i)) g"

text \<open>
  The callback of \<open>latestTxs.slice(1).forEach\<close>, for the object at position \<open>i\<close>, with the
  latest transaction at position \<open>l\<close>. \<open>fmtTime\<close> and \<open>fmtDate\<close> stand for \<open>formatTime\<close> and
  \<open>formatDate\<close> of \<open>utils/utils\<close>, as the strings the template literal makes of their
  results.
\<close>

definition mark_cancelled :: "(int \<Rightarrow> string) \<Rightarrow> (int \<Rightarrow> string) \<Rightarrow> tx \<Rightarrow> tx \<Rightarrow> tx" where
  "mark_cancelled fmtTime fmtDate latestCancelTx x =
     x\<lparr> hasCancel := JBool True,
        status := (if status latestCancelTx = JStr ''confirmed''
                   then JStr ''cancelled'' else JStr ''cancelling''),
        cancelDateInitiated :=
          JStr (fmtTime (date latestCancelTx) @ '' - '' @ fmtDate (date latestCancelTx)),
        etherscanLink := etherscanLink latestCancelTx,
        cancelGas := gas latestCancelTx,
        cancelGasPrice := gasPrice latestCancelTx \<rparr>"

text \<open>The body of the second loop, for one entry \<open>value\<close> of \<open>nonceMap\<close>.\<close>

definition mark_group ::
  "(int \<Rightarrow> string) \<Rightarrow> (int \<Rightarrow> string) \<Rightarrow> nat list \<Rightarrow> tx list \<Rightarrow> tx list" where
  "mark_group fmtTime fmtDate g xs =
     (if length g > 1 then
        (let latestTxs = sort_latest_first xs g;
             l = hd latestTxs;
             xs1 = xs[l := (xs ! l)\<lparr>is_cancel := JBool True\<rparr>]
         in fold (\<lambda>i ys. ys[i := mark_cancelled fmtTime fmtDate (ys ! l) (ys ! i)])
              (tl latestTxs) xs1)
      else xs)"

text \<open>
  \<open>Object.entries(nonceMap)\<close>. The entries are taken in insertion order, the order of
  keys that are not array indices; lemma \<open>cancel_loop_order\<close> below shows that the result
  of the second loop is the same in every order.
\<close>

definition cancelTxCalculate ::
  "(int \<Rightarrow> string) \<Rightarrow> (int \<Rightarrow> string) \<Rightarrow> tx list \<Rightarrow> exn + tx list" where
  "cancelTxCalculate fmtTime fmtDate pastTx =
     (case build_nonceMap pastTx of
        Inl error \<Rightarrow> Inl error
      | Inr nonceMap \<Rightarrow> Inr (fold (\<lambda>(k, g). mark_group fmtTime fmtDate g) nonceMap pastTx))"

text \<open>
  For the proofs: the positions below \<open>m\<close> whose nonce is \<open>k\<close>; the first loop with its
  state after \<open>m\<close> iterations; and the map the loop has built after \<open>m\<close> iterations when
  it has met no inherited key.
\<close>

definition nonce_group :: "tx list \<Rightarrow> string \<Rightarrow> nat \<Rightarrow> nat list" where
  "nonce_group xs k m = filter (\<lambda>j. nonce (xs ! j) = k) [0..<m]"

definition loop_upto :: "tx list \<Rightarrow> nat \<Rightarrow> exn + nonce_map" where
  "loop_upto xs m =
     fold (\<lambda>i r. case r of Inl error \<Rightarrow> Inl error
                         | Inr m \<Rightarrow> nonceMap_add (nonce (xs ! i)) i m)
       [0..<m] (Inr [])"

definition add_position :: "string \<Rightarrow> nat \<Rightarrow> nonce_map \<Rightarrow> nonce_map" where
  "add_position k i m =
     (case map_of m k of
        None \<Rightarrow> m @ [(k, [i])]
      | Some g \<Rightarrow> AList.update k (g @ [i]) m)"

definition build_upto :: "tx list \<Rightarrow> nat \<Rightarrow> nonce_map" where
  "build_upto xs m = fold (\<lambda>i m. add_position (nonce (xs ! i)) i m) [0..<m] []"

text \<open>Three transactions, two of them with the same nonce.\<close>

definition example_tx :: "string \<Rightarrow> int \<Rightarrow> string \<Rightarrow> tx" where
  "example_tx n d s =
     \<lparr> nonce = n, date = d, status = JStr s, etherscanLink = JStr (''https://etherscan.io/tx/'' @ n),
       gas = JNum 21000, gasPrice = JNum d, is_cancel = JBool False, hasCancel = JUndefined,
       cancelDateInitiated = JUndefined, cancelGas = JUndefined, cancelGasPrice = JUndefined,
       other = [] \<rparr>"

definition example_pastTx :: "tx list" where
  "example_pastTx =
     [example_tx ''0x1'' 100 ''submitted'', example_tx ''0x2'' 200 ''confirmed'',
      example_tx ''0x1'' 300 ''confirmed'']"

text \<open>A transaction whose nonce is the name of an inherited property.\<close>

definition inherited_nonce_tx :: tx where
  "inherited_nonce_tx = example_tx ''constructor'' 100 ''submitted''"

section \<open>The preferences controller: state and surroundings\<close>

text \<open>
  A call through \<open>this.api\<close> (\<open>utils/apiHelpers\<close>): the verbs with their URL, body and
  \<open>Authorization\<close> header (\<open>None\<close> where the call passes \<open>{}\<close> for the headers), and the two
  order fetches, which take the header only.
\<close>

datatype api_call =
    ApiGet string "string option"
  | ApiPost string jsval "string option"
  | ApiPatch string jsval "string option"
  | ApiRemove string jsval "string option"
  | GetWalletOrders string
  | GetPastOrders string

datatype log_level = LogInfo | LogWarn | LogError

datatype log_arg = Msg string | Exn exn | Val jsval

text \<open>What the controller does to its collaborators, in the order it does it.\<close>

datatype effect =
    AddSupportedNetworks jsval
  | SetSentryEnabled bool
  | Dispatch string jsval
  | Commit string jsval
  | SignMessage jsval string
  | StoreUserLogin jsval jsval jsval

text \<open>The callbacks the controller hands to \<open>setTimeout\<close>.\<close>

datatype timer_action = ResetErrorStore | ResetSuccessStore

text \<open>
  Everything the controller reads from outside itself. \<open>respond\<close> is the account service:
  the outcome of each call, a response or a rejection. The constants of \<open>utils/enums\<close>
  and the helpers of \<open>utils/utils\<close> and \<open>utils/permissionUtils\<close> are fields, since those
  files are not part of the sources at hand; every theorem holds whatever they are.
  \<open>isErrorObject\<close> holds of no \<open>null\<close> or \<open>undefined\<close> value. \<open>torusWhiteLabel\<close> is the parsed
  \<open>torus-white-label\<close> item of the session storage: \<open>None\<close> when the storage or the item is
  missing, \<open>Some (Inl e)\<close> when \<open>JSON.parse\<close> raises \<open>e\<close>.
\<close>

record world =
  api :: string
  respond :: "api_call \<Rightarrow> exn + jsval"
  getEthTxStatus :: "jsval \<Rightarrow> exn + jsval"
  signMessage :: "jsval \<Rightarrow> string \<Rightarrow> exn + jsval"
  hashPersonalMessage :: "string \<Rightarrow> string"
  networkIdentifier :: jsval
  formatPastTx :: "jsval \<Rightarrow> jsval \<Rightarrow> tx"
  formatTime :: "int \<Rightarrow> string"
  formatDate :: "int \<Rightarrow> string"
  newDate :: "jsval \<Rightarrow> jsval"
  isErrorObject :: "jsval \<Rightarrow> bool"
  prettyPrintData :: "jsval \<Rightarrow> string"
  ERROR_TIME :: nat
  SUCCESS_TIME :: nat
  themeGlobal :: jsval
  getUserLanguage :: jsval
  ACCOUNT_TYPE_NORMAL :: jsval
  ACTIVITY_ACTION_TOPUP :: string
  ACTIVITY_ACTION_SEND :: string
  ACTIVITY_ACTION_RECEIVE :: string
  torusWhiteLabel :: "(exn + jsval) option"

text \<open>
  The controller: the state of its six observable stores, and a record of what it has
  done so far (calls to the account service, log entries, pending timers with their
  delays in milliseconds, calls to collaborators). \<open>store\<close> is the state object of
  \<open>this.store\<close>: the property \<open>selectedAddress\<close> and one property per address, holding that
  address's account state.
\<close>

record controller =
  store :: "(string \<times> jsval) list"
  metadataStore :: jsval
  errorStore :: jsval
  successStore :: jsval
  billboardStore :: jsval
  announcementsStore :: jsval
  calls :: "api_call list"
  logs :: "(log_level \<times> log_arg list) list"
  timers :: "(nat \<times> timer_action) list"
  effects :: "effect list"

text \<open>The constructor's stores, with nothing done yet.\<close>

definition new_controller :: controller where
  "new_controller =
     \<lparr> store = [(''selectedAddress'', JStr [])], metadataStore = JObj [], errorStore = JStr [],
       successStore = JStr [], billboardStore = JObj [], announcementsStore = JObj [],
       calls = [], logs = [], timers = [], effects = [] \<rparr>"

definition log_to :: "log_level \<Rightarrow> log_arg list \<Rightarrow> controller \<Rightarrow> controller" where
  "log_to lvl args c = c\<lparr>logs := logs c @ [(lvl, args)]\<rparr>"

definition do_effect :: "effect \<Rightarrow> controller \<Rightarrow> controller" where
  "do_effect e c = c\<lparr>effects := effects c @ [e]\<rparr>"

text \<open>
  A call through \<open>this.api\<close>, awaited: the call is recorded and the account service
  answers.
\<close>

definition api_request :: "world \<Rightarrow> api_call \<Rightarrow> controller \<Rightarrow> (exn + jsval) \<times> controller" where
  "api_request w call c = (respond w call, c\<lparr>calls := calls c @ [call]\<rparr>)"

text \<open>\<open>setTimeout(callback, delay)\<close>.\<close>

definition setTimeout :: "timer_action \<Rightarrow> nat \<Rightarrow> controller \<Rightarrow> controller" where
  "setTimeout a delay c = c\<lparr>timers := timers c @ [(delay, a)]\<rparr>"

fun run_timer :: "timer_action \<Rightarrow> controller \<Rightarrow> controller" where
  "run_timer ResetErrorStore c = c\<lparr>errorStore := JStr []\<rparr>"
| "run_timer ResetSuccessStore c = c\<lparr>successStore := JStr []\<rparr>"

text \<open>
  The passing of \<open>t\<close> milliseconds in which nothing else happens: the timers that are due
  fire, the earliest first and timers due together in the order they were set; the
  others have \<open>t\<close> less to wait.
\<close>

definition elapse :: "nat \<Rightarrow> controller \<Rightarrow> controller" where
  "elapse t c =
     (let due = sort_key fst (filter (\<lambda>(d, a). d \<le> t) (timers c));
          waiting = map (\<lambda>(d, a). (d - t, a)) (filter (\<lambda>(d, a). t < d) (timers c))
      in fold (\<lambda>(d, a). run_timer a) due (c\<lparr>timers := waiting\<rparr>))"

subsection \<open>\<open>DEFAULT_ACCOUNT_STATE\<close>, \<open>state\<close>, \<open>headers\<close>, \<open>updateStore\<close>\<close>

definition DEFAULT_ACCOUNT_STATE :: "world \<Rightarrow> jsval" where
  "DEFAULT_ACCOUNT_STATE w =
     JObj [(''selectedCurrency'', JStr ''USD''),
           (''theme'', themeGlobal w),
           (''locale'', getUserLanguage w),
           (''contacts'', JArr []),
           (''permissions'', JArr []),
           (''jwtToken'', JStr []),
           (''fetchedPastTx'', JArr []),
           (''pastTransactions'', JArr []),
           (''paymentTx'', JArr []),
           (''defaultPublicAddress'', JStr []),
           (''accountType'', ACCOUNT_TYPE_NORMAL w),
           (''customTokens'', JArr []),
           (''customNfts'', JArr [])]"

text \<open>\<open>this.store.getState()\<close>.\<close>

definition getState :: "controller \<Rightarrow> jsval" where
  "getState c = JObj (store c)"

text \<open>\<open>address || this.store.getState().selectedAddress\<close>.\<close>

definition addressOrSelected :: "controller \<Rightarrow> jsval \<Rightarrow> jsval" where
  "addressOrSelected c address = js_or address (getprop (getState c) ''selectedAddress'')"

definition state :: "controller \<Rightarrow> jsval \<Rightarrow> jsval" where
  "state c address =
     (let selectedAddress = addressOrSelected c address
      in getprop (getState c) (js_string selectedAddress))"

text \<open>The \<open>Authorization\<close> header of \<open>headers(address)\<close>.\<close>

definition headers :: "controller \<Rightarrow> jsval \<Rightarrow> string" where
  "headers c address =
     (let selectedAddress = addressOrSelected c address
      in ''Bearer '' @
         js_string (js_or (getprop_opt (state c selectedAddress) ''jwtToken'') (JStr [])))"

text \<open>
  \<open>updateStore(newPartialState, address)\<close>, with the partial state given by the properties
  of the object literal every caller passes. \<open>cloneDeep\<close> copies the default account
  state; a copy is the same value. \<open>this.store.updateState({ [selectedAddress]: mergedState })\<close>
  sets that one property of the store's state object.
\<close>

definition updateStore ::
  "world \<Rightarrow> (string \<times> jsval) list \<Rightarrow> jsval \<Rightarrow> controller \<Rightarrow> jsval \<times> controller" where
  "updateStore w newPartialState address c =
     (let selectedAddress = addressOrSelected c address;
          currentState = js_or (state c selectedAddress) (DEFAULT_ACCOUNT_STATE w);
          mergedState = deepmerge currentState newPartialState
      in (mergedState,
          c\<lparr>store := AList.update (js_string selectedAddress) mergedState (store c)\<rparr>))"

subsection \<open>\<open>handleError\<close> and \<open>handleSuccess\<close>\<close>

definition handleError :: "world \<Rightarrow> jsval \<Rightarrow> controller \<Rightarrow> controller" where
  "handleError w error c =
     (let c1 =
        (if isErrorObject w error then
           c\<lparr>errorStore :=
               JStr (''Oops, That didn't work. Pls reload and try again. \<newline>'' @
                     js_string (getprop error ''message''))\<rparr>
         else if truthy error \<and> typeof_string error then
           c\<lparr>errorStore := error\<rparr>
         else if truthy error \<and> typeof_object error then
           (let prettyError = prettyPrintData w error;
                payloadError = (if prettyError \<noteq> [] then ''Error: '' @ prettyError
                                else ''Something went wrong. Pls try again'')
            in c\<lparr>errorStore := JStr payloadError\<rparr>)
         else
           c\<lparr>errorStore := js_or error (JStr [])\<rparr>)
      in setTimeout ResetErrorStore (ERROR_TIME w) c1)"

definition handleSuccess :: "world \<Rightarrow> jsval \<Rightarrow> controller \<Rightarrow> controller" where
  "handleSuccess w message c =
     (let c1 =
        (if truthy message \<and> typeof_string message then
           c\<lparr>successStore := message\<rparr>
         else if truthy message \<and> typeof_object message then
           (let prettyMessage = prettyPrintData w message;
                payloadMessage = (if prettyMessage \<noteq> [] then ''Success: '' @ prettyMessage
                                  else ''Success'')
            in c\<lparr>successStore := JStr payloadMessage\<rparr>)
         else
           c\<lparr>successStore := js_or message (JStr [])\<rparr>)
      in setTimeout ResetSuccessStore (SUCCESS_TIME w) c1)"

section \<open>Past transactions: \<open>calculatePastTx\<close> and \<open>calculatePaymentTx\<close>\<close>

text \<open>
  The object a formatted transaction is when the store holds it (its \<open>nonce\<close> written as
  the key it is in \<open>nonceMap\<close>).
\<close>

definition tx_object :: "tx \<Rightarrow> jsval" where
  "tx_object x =
     JObj (other x @
       [(''nonce'', JStr (nonce x)), (''date'', JDate (date x)), (''status'', status x),
        (''etherscanLink'', etherscanLink x), (''gas'', gas x), (''gasPrice'', gasPrice x),
        (''is_cancel'', is_cancel x), (''hasCancel'', hasCancel x),
        (''cancelDateInitiated'', cancelDateInitiated x),
        (''cancelGas'', cancelGas x), (''cancelGasPrice'', cancelGasPrice x)])"

text \<open>
  \<open>for (const x of v)\<close>: an array gives its elements, a string its characters, and a value
  that is not iterable raises a TypeError.
\<close>

fun iterate :: "jsval \<Rightarrow> exn + jsval list" where
  "iterate (JArr xs) = Inr xs"
| "iterate (JStr s) = Inr (map (\<lambda>ch. JStr [ch]) s)"
| "iterate v = Inl TypeError"

text \<open>
  \<open>patchPastTx(body, address)\<close>. The caller does not await it; it is run to completion
  where it is started.
\<close>

definition patchPastTx :: "world \<Rightarrow> jsval \<Rightarrow> jsval \<Rightarrow> controller \<Rightarrow> controller" where
  "patchPastTx w body address c =
     (case api_request w (ApiPatch (api w @ ''/transaction'') body (Some (headers c address))) c of
        (Inr response, c1) \<Rightarrow> log_to LogInfo [Msg ''successfully patched'', Val response] c1
      | (Inl error, c1) \<Rightarrow> log_to LogError [Msg ''unable to patch tx'', Exn error] c1)"

text \<open>
  The condition of the first loop of \<open>calculatePastTx\<close>, for one fetched transaction \<open>x\<close>:
  \<^verbatim>\<open>x.network === this.network.getNetworkIdentifier() && x.to && x.from &&
  (lowerCaseSelectedAddress === x.from.toLowerCase() ||
   lowerCaseSelectedAddress === x.to.toLowerCase())\<close>,
  evaluated from left to right, with the TypeErrors it can raise.
\<close>

definition isSelectedTx :: "world \<Rightarrow> string \<Rightarrow> jsval \<Rightarrow> exn + bool" where
  "isSelectedTx w lowerCaseSelectedAddress x =
     (if nullish x then Inl TypeError
      else if \<not> strict_eq (getprop x ''network'') (networkIdentifier w) then Inr False
      else if \<not> truthy (getprop x ''to'') then Inr False
      else if \<not> truthy (getprop x ''from'') then Inr False
      else (case call_toLowerCase (getprop x ''from'') of
              Inl error \<Rightarrow> Inl error
            | Inr lowerFrom \<Rightarrow>
                if lowerCaseSelectedAddress = lowerFrom then Inr True
                else (case call_toLowerCase (getprop x ''to'') of
                        Inl error \<Rightarrow> Inl error
                      | Inr lowerTo \<Rightarrow> Inr (lowerCaseSelectedAddress = lowerTo))))"

text \<open>The first loop, with \<open>pastTx\<close> and \<open>pendingTx\<close> as accumulators.\<close>

fun splitPastTx ::
  "world \<Rightarrow> string \<Rightarrow> jsval list \<Rightarrow> tx list \<Rightarrow> jsval list \<Rightarrow> exn + (tx list \<times> jsval list)" where
  "splitPastTx w lowerCaseSelectedAddress [] pastTx pendingTx = Inr (pastTx, pendingTx)"
| "splitPastTx w lowerCaseSelectedAddress (x # xs) pastTx pendingTx =
     (case isSelectedTx w lowerCaseSelectedAddress x of
        Inl error \<Rightarrow> Inl error
      | Inr selected \<Rightarrow>
          if selected then
            (if getprop x ''status'' \<noteq> JStr ''confirmed''
             then splitPastTx w lowerCaseSelectedAddress xs pastTx (pendingTx @ [x])
             else splitPastTx w lowerCaseSelectedAddress xs
                    (pastTx @ [formatPastTx w x (JStr lowerCaseSelectedAddress)]) pendingTx)
          else splitPastTx w lowerCaseSelectedAddress xs pastTx pendingTx)"

text \<open>
  \<^verbatim>\<open>getEthTxStatus(x.transaction_hash, this.web3).catch((error) => log.error(error))\<close>:
  the status on the chain, or \<open>undefined\<close> after logging when the lookup fails.
\<close>

definition resolvedTxStatus :: "world \<Rightarrow> jsval \<Rightarrow> jsval" where
  "resolvedTxStatus w x =
     (case getEthTxStatus w (getprop x ''transaction_hash'') of
        Inr st \<Rightarrow> st
      | Inl error \<Rightarrow> JUndefined)"

fun resolveTxStatuses :: "world \<Rightarrow> jsval list \<Rightarrow> controller \<Rightarrow> jsval list \<times> controller" where
  "resolveTxStatuses w [] c = ([], c)"
| "resolveTxStatuses w (x # xs) c =
     (let c1 = (case getEthTxStatus w (getprop x ''transaction_hash'') of
                  Inr st \<Rightarrow> c
                | Inl error \<Rightarrow> log_to LogError [Exn error] c);
          (sts, c2) = resolveTxStatuses w xs c1
      in (resolvedTxStatus w x # sts, c2))"

text \<open>
  The second loop, over the pending transactions with their resolved statuses. Every
  \<open>element\<close> has passed the condition of the first loop, so its \<open>from\<close> is a string.
\<close>

fun finishPendingTx ::
  "world \<Rightarrow> string \<Rightarrow> jsval \<Rightarrow> (jsval \<times> jsval) list \<Rightarrow> tx list \<Rightarrow> controller
     \<Rightarrow> tx list \<times> controller" where
  "finishPendingTx w lowerCaseSelectedAddress address [] pastTx c = (pastTx, c)"
| "finishPendingTx w lowerCaseSelectedAddress address ((element, st) # rest) pastTx c =
     (let finalObject = (formatPastTx w element (JStr lowerCaseSelectedAddress))\<lparr>status := st\<rparr>;
          c1 = (if call_toLowerCase (getprop element ''from'') = Inr lowerCaseSelectedAddress
                   \<and> truthy (status finalObject)
                   \<and> \<not> strict_eq (status finalObject) (getprop element ''status'')
                then patchPastTx w
                       (JObj [(''id'', getprop element ''id''), (''status'', status finalObject)])
                       address c
                else c)
      in finishPendingTx w lowerCaseSelectedAddress address rest (pastTx @ [finalObject]) c1)"

definition calculatePastTx ::
  "world \<Rightarrow> jsval \<Rightarrow> jsval \<Rightarrow> controller \<Rightarrow> (exn + jsval) \<times> controller" where
  "calculatePastTx w txs address c =
     (case call_toLowerCase address of
        Inl error \<Rightarrow> (Inl error, c)
      | Inr lowerCaseSelectedAddress \<Rightarrow>
     (case iterate txs of
        Inl error \<Rightarrow> (Inl error, c)
      | Inr xs \<Rightarrow>
     (case splitPastTx w lowerCaseSelectedAddress xs [] [] of
        Inl error \<Rightarrow> (Inl error, c)
      | Inr (pastTx, pendingTx) \<Rightarrow>
          (let (resolvedTxStatuses, c1) = resolveTxStatuses w pendingTx c;
               (pastTx2, c2) = finishPendingTx w lowerCaseSelectedAddress address
                                 (zip pendingTx resolvedTxStatuses) pastTx c1
           in (case cancelTxCalculate (formatTime w) (formatDate w) pastTx2 of
                 Inl error \<Rightarrow> (Inl error, c2)
               | Inr finalTx \<Rightarrow>
                   (let (mergedState, c3) =
                          updateStore w [(''pastTransactions'', JArr (map tx_object finalTx))]
                            address c2
                    in (Inr JUndefined, c3)))))))"

text \<open>\<open>String.prototype.includes\<close>: \<open>needle\<close> occurs in \<open>hay\<close>.\<close>

fun str_includes :: "string \<Rightarrow> string \<Rightarrow> bool" where
  "str_includes [] needle = (needle = [])"
| "str_includes (h # hay) needle = (take (length needle) (h # hay) = needle \<or> str_includes hay needle)"

text \<open>The object \<open>calculatePaymentTx\<close> pushes for one order \<open>x\<close>.\<close>

definition paymentTxEntry :: "world \<Rightarrow> jsval \<Rightarrow> exn + jsval" where
  "paymentTxEntry w x =
     (if nullish x then Inl TypeError
      else (case call_toLowerCase (getprop x ''action'') of
        Inl error \<Rightarrow> Inl error
      | Inr lowerCaseAction \<Rightarrow>
          (let action =
                 (if str_includes (ACTIVITY_ACTION_TOPUP w) lowerCaseAction then ACTIVITY_ACTION_TOPUP w
                  else if str_includes (ACTIVITY_ACTION_SEND w) lowerCaseAction then ACTIVITY_ACTION_SEND w
                  else if str_includes (ACTIVITY_ACTION_RECEIVE w) lowerCaseAction
                       then ACTIVITY_ACTION_RECEIVE w
                  else [])
           in (case call_toLowerCase (getprop x ''status'') of
                 Inl error \<Rightarrow> Inl error
               | Inr lowerStatus \<Rightarrow>
                   Inr (JObj
                     [(''id'', getprop x ''id''),
                      (''date'', newDate w (getprop x ''date'')),
                      (''from'', getprop x ''from''),
                      (''slicedFrom'', getprop x ''slicedFrom''),
                      (''action'', JStr action),
                      (''to'', getprop x ''to''),
                      (''slicedTo'', getprop x ''slicedTo''),
                      (''totalAmount'', getprop x ''totalAmount''),
                      (''totalAmountString'', getprop x ''totalAmountString''),
                      (''currencyAmount'', getprop x ''currencyAmount''),
                      (''currencyAmountString'', getprop x ''currencyAmountString''),
                      (''amount'', getprop x ''amount''),
                      (''ethRate'', getprop x ''ethRate''),
                      (''status'', JStr lowerStatus),
                      (''etherscanLink'', js_or (getprop x ''etherscanLink'') (JStr [])),
                      (''currencyUsed'', getprop x ''currencyUsed'')])))))"

fun paymentTxEntries :: "world \<Rightarrow> jsval list \<Rightarrow> jsval list \<Rightarrow> exn + jsval list" where
  "paymentTxEntries w [] accumulator = Inr accumulator"
| "paymentTxEntries w (x # xs) accumulator =
     (case paymentTxEntry w x of
        Inl error \<Rightarrow> Inl error
      | Inr entry \<Rightarrow> paymentTxEntries w xs (accumulator @ [entry]))"

definition calculatePaymentTx ::
  "world \<Rightarrow> jsval \<Rightarrow> jsval \<Rightarrow> controller \<Rightarrow> (exn + jsval) \<times> controller" where
  "calculatePaymentTx w txs address c =
     (case iterate txs of
        Inl error \<Rightarrow> (Inl error, c)
      | Inr xs \<Rightarrow>
     (case paymentTxEntries w xs [] of
        Inl error \<Rightarrow> (Inl error, c)
      | Inr accumulator \<Rightarrow>
          (let (mergedState, c1) = updateStore w [(''paymentTx'', JArr accumulator)] address c
           in (Inr JUndefined, c1))))"

text \<open>
  For the statements about \<open>calculatePastTx\<close>. A fetched transaction, as the account
  service sends it: an object whose \<open>from\<close> and \<open>to\<close> are strings where they are present.
  And the condition of the first loop as a truth value: the network is the current
  one, \<open>to\<close> and \<open>from\<close> are present, and one of them is the address, compared in lower
  case.
\<close>

definition fetchedTx :: "jsval \<Rightarrow> bool" where
  "fetchedTx x =
     (\<not> nullish x \<and>
      (typeof_string (getprop x ''from'') \<or> \<not> truthy (getprop x ''from'')) \<and>
      (typeof_string (getprop x ''to'') \<or> \<not> truthy (getprop x ''to'')))"

definition selectsTx :: "world \<Rightarrow> string \<Rightarrow> jsval \<Rightarrow> bool" where
  "selectsTx w lowerCaseSelectedAddress x =
     (strict_eq (getprop x ''network'') (networkIdentifier w) \<and>
      truthy (getprop x ''to'') \<and> truthy (getprop x ''from'') \<and>
      (call_toLowerCase (getprop x ''from'') = Inr lowerCaseSelectedAddress \<or>
       call_toLowerCase (getprop x ''to'') = Inr lowerCaseSelectedAddress))"

section \<open>\<open>sync\<close> and \<open>getAnnouncementsContents\<close>\<close>

text \<open>
  The white-label override inside \<open>sync\<close>: the \<open>defaultLanguage\<close> of the parsed session
  item, \<open>undefined\<close> when there is none; an exception of \<open>JSON.parse\<close> or of the property
  access is caught and logged.
\<close>

definition whiteLabelLocale :: "world \<Rightarrow> controller \<Rightarrow> jsval \<times> controller" where
  "whiteLabelLocale w c =
     (case torusWhiteLabel w of
        None \<Rightarrow> (JUndefined, c)
      | Some (Inl error) \<Rightarrow> (JUndefined, log_to LogError [Exn error] c)
      | Some (Inr parsed) \<Rightarrow>
          if nullish parsed then (JUndefined, log_to LogError [Exn TypeError] c)
          else (getprop parsed ''defaultLanguage'', c))"

text \<open>\<open>customNetworks.forEach((i) => ...)\<close>, for the elements of the array.\<close>

fun addCustomNetworks :: "jsval list \<Rightarrow> controller \<Rightarrow> exn option \<times> controller" where
  "addCustomNetworks [] c = (None, c)"
| "addCustomNetworks (i # rest) c =
     (if nullish i then (Some TypeError, c)
      else addCustomNetworks rest
             (do_effect (AddSupportedNetworks
                (JObj [(''blockExplorer'', getprop i ''block_explorer_url''),
                       (''chainId'', getprop i ''chain_id''),
                       (''host'', getprop i ''rpc_url''),
                       (''networkName'', getprop i ''network_name''),
                       (''ticker'', getprop i ''symbol''),
                       (''id'', getprop i ''id'')])) c))"

text \<open>The \<open>try\<close> block of \<open>sync\<close>: its value, or the exception it raises.\<close>

definition sync_try :: "world \<Rightarrow> jsval \<Rightarrow> controller \<Rightarrow> (exn + jsval) \<times> controller" where
  "sync_try w address c =
     (case api_request w (ApiGet (api w @ ''/user?fetchTx=false'') (Some (headers c address))) c of
        (Inl error, c1) \<Rightarrow> (Inl error, c1)
      | (Inr user, c1) \<Rightarrow>
          if truthy (getprop_opt user ''data'') then
            (let data = js_or (getprop user ''data'') (JObj []);
                 enable_crash_reporter = getprop data ''enable_crash_reporter'';
                 public_address = getprop data ''public_address'';
                 (whiteLabel, c2) = whiteLabelLocale w c1;
                 (mergedState, c3) =
                   updateStore w
                     [(''contacts'', getprop data ''contacts''),
                      (''theme'', getprop data ''theme''),
                      (''crashReport'', JBool (truthy enable_crash_reporter)),
                      (''selectedCurrency'', getprop data ''default_currency''),
                      (''locale'', js_or whiteLabel (js_or (getprop data ''locale'') (getUserLanguage w))),
                      (''permissions'', getprop data ''permissions''),
                      (''accountType'', js_or (getprop data ''account_type'') (ACCOUNT_TYPE_NORMAL w)),
                      (''defaultPublicAddress'',
                         js_or (getprop data ''default_public_address'') public_address),
                      (''customTokens'', getprop data ''customTokens''),
                      (''customNfts'', getprop data ''customNfts'')]
                     public_address c2
             in (case getprop data ''customNetworks'' of
                   JArr networks \<Rightarrow>
                     (case addCustomNetworks networks c3 of
                        (Some error, c4) \<Rightarrow> (Inl error, c4)
                      | (None, c4) \<Rightarrow>
                          (Inr user, do_effect (SetSentryEnabled (truthy enable_crash_reporter)) c4))
                 | notAnArray \<Rightarrow> (Inl TypeError, c3)))
          else (Inr JUndefined, c1))"

text \<open>
  One order fetch with its \<open>.catch\<close>: the response, or \<open>undefined\<close> after logging the
  failure.
\<close>

definition caughtOrders :: "string \<Rightarrow> exn + jsval \<Rightarrow> controller \<Rightarrow> jsval \<times> controller" where
  "caughtOrders label outcome c =
     (case outcome of
        Inr response \<Rightarrow> (response, c)
      | Inl error \<Rightarrow> (JUndefined, log_to LogError [Msg label, Exn error] c))"

text \<open>
  The \<open>.then\<close> callback on the two settled fetches. \<open>calculatePaymentTx\<close> is synchronous: an
  exception of it leaves the callback. \<open>calculatePastTx\<close> is asynchronous and not awaited:
  its promise is dropped, whatever it settles to.
\<close>

definition ordersFetched ::
  "world \<Rightarrow> jsval \<Rightarrow> jsval \<Rightarrow> jsval \<Rightarrow> controller \<Rightarrow> (exn + jsval) \<times> controller" where
  "ordersFetched w address walletTx paymentTx c =
     (case (if truthy (getprop_opt paymentTx ''data'')
            then calculatePaymentTx w (getprop paymentTx ''data'') address c
            else (Inr JUndefined, c)) of
        (Inl error, c1) \<Rightarrow> (Inl error, c1)
      | (Inr done, c1) \<Rightarrow>
          if truthy (getprop_opt walletTx ''data'') then
            (let (mergedState, c2) =
                   updateStore w [(''fetchedPastTx'', getprop walletTx ''data'')] address c1;
                 (dropped, c3) = calculatePastTx w (getprop walletTx ''data'') address c2
             in (Inr JUndefined, c3))
          else (Inr JUndefined, c1))"

text \<open>
  The \<open>finally\<close> block of \<open>sync\<close>: both fetches are started, each with its own \<open>.catch\<close>, and
  the chain ends in \<open>.catch((error) => log.error(error))\<close>. Nothing in the block can raise.
  The promise is not awaited; its callbacks are run to completion here.
\<close>

definition sync_finally :: "world \<Rightarrow> jsval \<Rightarrow> controller \<Rightarrow> controller" where
  "sync_finally w address c =
     (let authorization = headers c address;
          (walletOutcome, c1) = api_request w (GetWalletOrders authorization) c;
          (paymentOutcome, c2) = api_request w (GetPastOrders authorization) c1;
          (walletTx, c3) = caughtOrders ''unable to fetch wallet orders'' walletOutcome c2;
          (paymentTx, c4) = caughtOrders ''unable to fetch past orders'' paymentOutcome c3
      in (case ordersFetched w address walletTx paymentTx c4 of
            (Inl error, c5) \<Rightarrow> log_to LogError [Exn error] c5
          | (Inr done, c5) \<Rightarrow> c5))"

text \<open>
  \<open>sync(address)\<close>: the \<open>try\<close> block, its \<open>catch\<close> (log a warning, return \<open>undefined\<close>) and the
  \<open>finally\<close> block. The result is what the promise of \<open>sync\<close> settles to: \<open>Inr\<close> its value,
  \<open>Inl\<close> an exception that leaves the function.
\<close>

definition sync :: "world \<Rightarrow> jsval \<Rightarrow> controller \<Rightarrow> (exn + jsval) \<times> controller" where
  "sync w address c =
     (let (returned, c2) =
            (case sync_try w address c of
               (Inl error, c1) \<Rightarrow> (Inr JUndefined, log_to LogWarn [Exn error] c1)
             | (Inr user, c1) \<Rightarrow> (Inr user, c1))
      in (returned, sync_finally w address c2))"

text \<open>The callback of \<open>resp.data.reduce\<close> in \<open>getAnnouncementsContents\<close>.\<close>

definition groupAnnouncement ::
  "(string \<times> jsval) list \<Rightarrow> jsval \<Rightarrow> exn + (string \<times> jsval) list" where
  "groupAnnouncement accumulator announcement =
     (if nullish announcement then Inl TypeError
      else
        (let locale = js_string (getprop announcement ''locale'');
             accumulator1 = (if \<not> truthy (getprop (JObj accumulator) locale)
                             then AList.update locale (JArr []) accumulator
                             else accumulator)
         in (case getprop (JObj accumulator1) locale of
               JArr pushed \<Rightarrow> Inr (AList.update locale (JArr (pushed @ [announcement])) accumulator1)
             | notAnArray \<Rightarrow> Inl TypeError)))"

fun reduceAnnouncements ::
  "jsval list \<Rightarrow> (string \<times> jsval) list \<Rightarrow> exn + (string \<times> jsval) list" where
  "reduceAnnouncements [] accumulator = Inr accumulator"
| "reduceAnnouncements (announcement # rest) accumulator =
     (case groupAnnouncement accumulator announcement of
        Inl error \<Rightarrow> Inl error
      | Inr accumulator1 \<Rightarrow> reduceAnnouncements rest accumulator1)"

text \<open>The \<open>try\<close> block of \<open>getAnnouncementsContents\<close>.\<close>

definition announcements_try :: "world \<Rightarrow> controller \<Rightarrow> (exn + jsval) \<times> controller" where
  "announcements_try w c =
     (if \<not> truthy (getprop (getState c) ''selectedAddress'') then (Inr JUndefined, c)
      else
        (case api_request w (ApiGet (api w @ ''/announcements'') (Some (headers c JUndefined))) c of
           (Inl error, c1) \<Rightarrow> (Inl error, c1)
         | (Inr resp, c1) \<Rightarrow>
             if nullish resp then (Inl TypeError, c1)
             else (case getprop resp ''data'' of
                     JArr items \<Rightarrow>
                       (case reduceAnnouncements items [] of
                          Inl error \<Rightarrow> (Inl error, c1)
                        | Inr announcements \<Rightarrow>
                            (Inr JUndefined, c1\<lparr>announcementsStore := JObj announcements\<rparr>))
                   | notAnArray \<Rightarrow> (Inl TypeError, c1))))"

definition getAnnouncementsContents :: "world \<Rightarrow> controller \<Rightarrow> (exn + jsval) \<times> controller" where
  "getAnnouncementsContents w c =
     (case announcements_try w c of
        (Inl error, c1) \<Rightarrow> (Inr JUndefined, log_to LogError [Exn error] c1)
      | (Inr done, c1) \<Rightarrow> (Inr done, c1))"

text \<open>
  For the statement about \<open>sync\<close>: the world in which the two order fetches have the given
  outcomes and every other call is answered as before.
\<close>

definition withOrderOutcomes :: "world \<Rightarrow> exn + jsval \<Rightarrow> exn + jsval \<Rightarrow> world" where
  "withOrderOutcomes w walletOutcome paymentOutcome =
     w\<lparr>respond := (\<lambda>call. case call of
                        GetWalletOrders h \<Rightarrow> walletOutcome
                      | GetPastOrders h \<Rightarrow> paymentOutcome
                      | ApiGet u h \<Rightarrow> respond w call
                      | ApiPost u b h \<Rightarrow> respond w call
                      | ApiPatch u b h \<Rightarrow> respond w call
                      | ApiRemove u b h \<Rightarrow> respond w call)\<rparr>"

section \<open>\<open>setUserTheme\<close>, \<open>getNfts\<close> and \<open>init\<close>\<close>

text \<open>
  The result of an \<open>async\<close> method is what its promise settles to: \<open>Inr\<close> the value it
  returns (\<open>undefined\<close> where it returns nothing), \<open>Inl\<close> an exception that leaves it.
\<close>

definition setUserTheme :: "world \<Rightarrow> jsval \<Rightarrow> controller \<Rightarrow> (exn + jsval) \<times> controller" where
  "setUserTheme w payload c =
     (if strict_eq payload (getprop_opt (state c JUndefined) ''theme'') then (Inr JUndefined, c)
      else
        (case api_request w
                (ApiPatch (api w @ ''/user/theme'') (JObj [(''theme'', payload)])
                   (Some (headers c JUndefined))) c of
           (Inr response, c1) \<Rightarrow>
             (let c2 = handleSuccess w (JStr ''navBar.snackSuccessTheme'') c1;
                  (mergedState, c3) = updateStore w [(''theme'', payload)] JUndefined c2
              in (Inr JUndefined, c3))
         | (Inl error, c1) \<Rightarrow>
             (let c2 = log_to LogError [Exn error] c1
              in (Inr JUndefined, handleError w (JStr ''navBar.snackFailTheme'') c2))))"

definition getNfts :: "world \<Rightarrow> jsval \<Rightarrow> jsval \<Rightarrow> controller \<Rightarrow> (exn + jsval) \<times> controller" where
  "getNfts w userAddress network c =
     (if \<not> truthy (getprop_opt (state c userAddress) ''jwtToken'')
      then (Inr (JObj [(''data'', JArr [])]), c)
      else api_request w
             (ApiGet (api w @ ''/nfts?userAddress='' @ js_string userAddress @
                      ''&network='' @ js_string network)
                (Some (headers c JUndefined))) c)"

subsection \<open>\<open>init\<close>\<close>

definition getMessageForSigning :: "world \<Rightarrow> jsval \<Rightarrow> controller \<Rightarrow> jsval \<times> controller" where
  "getMessageForSigning w publicAddress c =
     (case api_request w
             (ApiPost (api w @ ''/auth/message'') (JObj [(''public_address'', publicAddress)]) None) c of
        (Inr response, c1) \<Rightarrow>
          if nullish response then (JUndefined, log_to LogError [Exn TypeError] c1)
          else (getprop response ''message'', c1)
      | (Inl error, c1) \<Rightarrow> (JUndefined, log_to LogError [Exn error] c1))"

text \<open>\<open>v.startsWith(p)\<close>: only a string has the method.\<close>

fun call_startsWith :: "jsval \<Rightarrow> string \<Rightarrow> exn + bool" where
  "call_startsWith (JStr s) p = Inr (take (length p) s = p)"
| "call_startsWith v p = Inl TypeError"

text \<open>
  \<open>array.includes(v)\<close> and \<open>string.includes(v)\<close>; any other receiver has no such method.
\<close>

fun call_includes :: "jsval \<Rightarrow> jsval \<Rightarrow> exn + bool" where
  "call_includes (JArr xs) v = Inr (list_ex (\<lambda>x. strict_eq x v) xs)"
| "call_includes (JStr s) v = Inr (str_includes s (js_string v))"
| "call_includes u v = Inl TypeError"

text \<open>
  The body of \<open>if (!jwtToken)\<close> in \<open>init\<close>: the message is fetched, checked, hashed and
  signed, and the signature is posted; the value is the response of \<open>/auth/verify\<close>.
\<close>

definition init_signIn :: "world \<Rightarrow> jsval \<Rightarrow> controller \<Rightarrow> (exn + jsval) \<times> controller" where
  "init_signIn w address c =
     (let (messageToSign, c1) = getMessageForSigning w address c
      in (case call_startsWith messageToSign ''Torus Signin'' of
            Inl error \<Rightarrow> (Inl error, c1)
          | Inr starts \<Rightarrow>
              if \<not> starts then (Inl (Error ''Cannot sign on invalid message''), c1)
              else
                (let hashedMessage = hashPersonalMessage w (js_string messageToSign);
                     c2 = do_effect (SignMessage address hashedMessage) c1
                 in (case signMessage w address hashedMessage of
                       Inl error \<Rightarrow> (Inl error, c2)
                     | Inr signedMessage \<Rightarrow>
                         api_request w
                           (ApiPost (api w @ ''/auth/verify'')
                              (JObj [(''public_address'', address),
                                     (''signed_message'', signedMessage)])
                              None) c2))))"

text \<open>\<open>setVerifier\<close> is not awaited by \<open>init\<close>; it is run to completion where it is started.\<close>

definition setVerifier :: "world \<Rightarrow> jsval \<Rightarrow> jsval \<Rightarrow> jsval \<Rightarrow> controller \<Rightarrow> controller" where
  "setVerifier w verifier verifierId address c =
     (case api_request w
             (ApiPatch (api w @ ''/user/verifier'')
                (JObj [(''verifier'', verifier), (''verifierId'', verifierId)])
                (Some (headers c address))) c of
        (Inr response, c1) \<Rightarrow>
          log_to LogInfo [Msg ''successfully updated verifier info'', Val response] c1
      | (Inl error, c1) \<Rightarrow>
          log_to LogError [Msg ''unable to update verifier info'', Exn error] c1)"

definition createUser ::
  "world \<Rightarrow> jsval \<Rightarrow> jsval \<Rightarrow> jsval \<Rightarrow> jsval \<Rightarrow> jsval \<Rightarrow> jsval \<Rightarrow> controller
     \<Rightarrow> (exn + jsval) \<times> controller" where
  "createUser w selectedCurrency theme verifier verifierId accountType address c =
     (case api_request w
             (ApiPost (api w @ ''/user'')
                (JObj [(''default_currency'', selectedCurrency), (''theme'', theme),
                       (''verifier'', verifier), (''verifierId'', verifierId),
                       (''account_type'', accountType)])
                (Some (headers c address))) c of
        (Inl error, c1) \<Rightarrow> (Inl error, c1)
      | (Inr response, c1) \<Rightarrow>
          (let (mergedState, c2) =
                 updateStore w
                   [(''theme'', theme), (''accountType'', ACCOUNT_TYPE_NORMAL w),
                    (''defaultPublicAddress'', address)]
                   address c1
           in (Inr JUndefined, c2)))"

text \<open>
  \<open>storeUserLogin\<close> reads the origin of the window and starts an interval that posts the
  login to \<open>/user/recordLogin\<close> a second later. The model records that it was started.
\<close>

definition storeUserLogin ::
  "world \<Rightarrow> jsval \<Rightarrow> jsval \<Rightarrow> jsval \<Rightarrow> jsval \<Rightarrow> controller \<Rightarrow> controller" where
  "storeUserLogin w verifier verifierId payload address c =
     (if \<not> truthy (getprop payload ''rehydrate'')
      then do_effect (StoreUserLogin verifier verifierId address) c
      else c)"

text \<open>A default parameter value: it stands in for \<open>undefined\<close> only.\<close>

definition defaultTo :: "jsval \<Rightarrow> jsval \<Rightarrow> jsval" where
  "defaultTo d v = (if v = JUndefined then d else v)"

text \<open>The branch of \<open>init\<close> for a user the account service knows (\<open>user?.data\<close> is truthy).\<close>

definition init_knownUser ::
  "world \<Rightarrow> jsval \<Rightarrow> jsval \<Rightarrow> jsval \<Rightarrow> jsval \<Rightarrow> jsval \<Rightarrow> jsval \<Rightarrow> jsval \<Rightarrow>
     controller \<Rightarrow> (exn + jsval) \<times> controller" where
  "init_knownUser w address user currentState verifier verifierId customCurrency
       supportedCurrencies c =
     (let data = js_or (getprop user ''data'') (JObj []);
          defaultCurrency = getprop data ''default_currency''
      in (case call_includes supportedCurrencies defaultCurrency of
            Inl error \<Rightarrow> (Inl error, c)
          | Inr supported \<Rightarrow>
              (let c1 = do_effect (Dispatch ''setSelectedCurrency''
                          (if supported
                           then JObj [(''selectedCurrency'', defaultCurrency),
                                      (''origin'', JStr ''store'')]
                           else JObj [(''selectedCurrency'',
                                         js_or customCurrency
                                           (getprop currentState ''selectedCurrency'')),
                                      (''origin'', JStr ''home'')])) c;
                   c2 = (if \<not> truthy (getprop data ''verifier'')
                            \<or> \<not> truthy (getprop data ''verifier_id'')
                         then setVerifier w verifier verifierId address c1
                         else c1)
               in (Inr (getprop data ''default_public_address''), c2))))"

text \<open>The branch of \<open>init\<close> for a new user.\<close>

definition init_newUser ::
  "world \<Rightarrow> jsval \<Rightarrow> jsval \<Rightarrow> jsval \<Rightarrow> jsval \<Rightarrow> jsval \<Rightarrow> jsval \<Rightarrow> jsval \<Rightarrow>
     controller \<Rightarrow> (exn + jsval) \<times> controller" where
  "init_newUser w address currentState verifier verifierId accountType postboxAddress
       customCurrency c =
     (let accountState = js_or (getprop (getState c) (js_string postboxAddress)) currentState;
          currency = js_or customCurrency (getprop accountState ''selectedCurrency'')
      in (case createUser w currency (getprop accountState ''theme'') verifier verifierId
                 accountType address c of
            (Inl error, c1) \<Rightarrow> (Inl error, c1)
          | (Inr created, c1) \<Rightarrow>
              (let c2 = do_effect (Commit ''setNewUser'' (JBool True)) c1;
                   c3 = do_effect (Dispatch ''setSelectedCurrency''
                          (JObj [(''selectedCurrency'', currency),
                                 (''origin'', JStr ''home'')])) c2
               in (Inr address, c3))))"

text \<open>
  \<open>init\<close>, with the fields of its options object as arguments; \<open>dispatch\<close> and \<open>commit\<close> are
  recorded as effects. An option that is \<open>undefined\<close> takes its default.
\<close>

definition init ::
  "world \<Rightarrow> jsval \<Rightarrow> jsval \<Rightarrow> jsval \<Rightarrow> jsval \<Rightarrow> jsval \<Rightarrow> jsval \<Rightarrow> jsval \<Rightarrow> jsval \<Rightarrow> jsval \<Rightarrow>
     controller \<Rightarrow> (exn + jsval) \<times> controller" where
  "init w address jwtToken calledFromEmbed0 userInfo0 rehydrate0 accountType0 postboxAddress
       customCurrency supportedCurrencies c =
     (let calledFromEmbed = defaultTo (JBool False) calledFromEmbed0;
          userInfo = defaultTo (JObj []) userInfo0;
          rehydrate = defaultTo (JBool False) rehydrate0;
          accountType = defaultTo (ACCOUNT_TYPE_NORMAL w) accountType0
      in
      if truthy (state c address)
      then (Inr (js_or (getprop (state c address) ''defaultPublicAddress'') address), c)
      else
        (case (if \<not> truthy jwtToken then init_signIn w address c
               else (Inr (JObj [(''token'', jwtToken)]), c)) of
           (Inl error, c1) \<Rightarrow> (Inl error, c1)
         | (Inr response, c1) \<Rightarrow>
             if nullish response then (Inl TypeError, c1)
             else
               (let (currentState, c2) =
                      updateStore w [(''jwtToken'', getprop response ''token'')] address c1
                in if nullish userInfo then (Inl TypeError, c2)
                   else
                     (let verifier = getprop userInfo ''verifier'';
                          verifierId = getprop userInfo ''verifierId'';
                          (synced, c3) = sync w address c2
                      in (case synced of
                            Inl error \<Rightarrow> (Inl error, c3)
                          | Inr user \<Rightarrow>
                              (case (if truthy (getprop_opt user ''data'')
                                     then init_knownUser w address user currentState verifier
                                            verifierId customCurrency supportedCurrencies c3
                                     else init_newUser w address currentState verifier verifierId
                                            accountType postboxAddress customCurrency c3) of
                                 (Inl error, c4) \<Rightarrow> (Inl error, c4)
                               | (Inr defaultPublicAddress, c4) \<Rightarrow>
                                   (Inr defaultPublicAddress,
                                    if \<not> truthy rehydrate
                                    then storeUserLogin w verifier verifierId
                                           (JObj [(''calledFromEmbed'', calledFromEmbed),
                                                  (''rehydrate'', rehydrate)])
                                           address c4
                                    else c4)))))))"

section \<open>The PopupLogin component\<close>

text \<open>
  The component: its prop \<open>loginDialog\<close>, its data \<open>showModal\<close> and \<open>viewMoreOptions\<close>, the
  events it has emitted to its parent, and what it has logged.
\<close>

record popupLogin =
  loginDialog :: bool
  showModal :: bool
  viewMoreOptions :: bool
  emitted :: "string list"
  popupLog :: "exn list"

text \<open>The elements of the template that carry a listener, and the events they receive.\<close>

datatype popup_element = CloseBtn | LoginButtons

datatype popup_event = Click | TriggerLogin jsval jsval

text \<open>\<open>closeDialog() { this.$emit('closeDialog') }\<close>.\<close>

definition closeDialog :: "popupLogin \<Rightarrow> popupLogin" where
  "closeDialog p = p\<lparr>emitted := emitted p @ [''closeDialog'']\<rparr>"

text \<open>
  \<open>startLogin(verifier, email)\<close>; \<open>outcome\<close> is what the store action \<open>triggerLogin\<close> settles
  to.
\<close>

definition startLogin :: "exn + jsval \<Rightarrow> jsval \<Rightarrow> jsval \<Rightarrow> popupLogin \<Rightarrow> popupLogin" where
  "startLogin outcome verifier email p =
     (let p1 = p\<lparr>showModal := False\<rparr>;
          p2 = (case outcome of
                  Inr loggedIn \<Rightarrow> p1
                | Inl error \<Rightarrow> closeDialog (p1\<lparr>popupLog := popupLog p1 @ [error]\<rparr>))
      in p2\<lparr>showModal := True\<rparr>)"

text \<open>
  The listeners of the template: \<^verbatim>\<open>@click="closeDialog"\<close> on the button of class
  \<open>close-btn\<close>, \<^verbatim>\<open>@triggerLogin="startLogin"\<close> on \<open>LoginButtons\<close>. Both elements are
  inside the dialog, which is shown while \<open>loginDialog && showModal\<close> holds; an element
  that is not shown receives no event.
\<close>

fun listener :: "exn + jsval \<Rightarrow> popup_element \<Rightarrow> popup_event \<Rightarrow> popupLogin \<Rightarrow> popupLogin" where
  "listener outcome CloseBtn Click p = closeDialog p"
| "listener outcome LoginButtons (TriggerLogin verifier email) p = startLogin outcome verifier email p"
| "listener outcome element event p = p"

definition deliver :: "exn + jsval \<Rightarrow> popup_element \<Rightarrow> popup_event \<Rightarrow> popupLogin \<Rightarrow> popupLogin" where
  "deliver outcome element event p =
     (if loginDialog p \<and> showModal p then listener outcome element event p else p)"

section \<open>Example inputs\<close>

text \<open>
  A world and a controller to run the definitions on. The helpers the sources do not
  show are given simple bodies here; the theorems below hold for every world, and only
  their instances use this one. The account service is the parameter \<open>r\<close>.
\<close>

definition example_prettyPrintData :: "jsval \<Rightarrow> string" where
  "example_prettyPrintData data =
     concat (map (\<lambda>kv. ''\<newline>'' @ fst kv @ '': '' @ js_string (snd kv)) (own_entries data))"

definition example_formatPastTx :: "jsval \<Rightarrow> jsval \<Rightarrow> tx" where
  "example_formatPastTx x lowerCaseSelectedAddress =
     \<lparr> nonce = js_string (js_or (getprop x ''nonce'') (JStr [])),
       date = (case getprop x ''created_at'' of JNum t \<Rightarrow> t | v \<Rightarrow> 0),
       status = getprop x ''status'',
       etherscanLink = JStr (''https://etherscan.io/tx/'' @ js_string (getprop x ''transaction_hash'')),
       gas = js_or (getprop x ''gas'') (JStr []),
       gasPrice = js_or (getprop x ''gasPrice'') (JStr []),
       is_cancel = JBool (truthy (getprop x ''is_cancel'')),
       hasCancel = JUndefined, cancelDateInitiated = JUndefined,
       cancelGas = JUndefined, cancelGasPrice = JUndefined,
       other = [(''id'', getprop x ''id''), (''from'', getprop x ''from''),
                (''to'', getprop x ''to''),
                (''transaction_hash'', getprop x ''transaction_hash'')] \<rparr>"

definition example_world :: "(api_call \<Rightarrow> exn + jsval) \<Rightarrow> world" where
  "example_world r =
     \<lparr> api = ''https://api.tor.us'',
       respond = r,
       getEthTxStatus = (\<lambda>h. Inr (JStr ''confirmed'')),
       signMessage = (\<lambda>a m. Inr (JStr (''signed '' @ m))),
       hashPersonalMessage = (\<lambda>m. m),
       networkIdentifier = JStr ''mainnet'',
       formatPastTx = example_formatPastTx,
       formatTime = (\<lambda>t. ''12:00''),
       formatDate = (\<lambda>t. ''1 Jan''),
       newDate = (\<lambda>v. case v of JNum t \<Rightarrow> JDate t | u \<Rightarrow> JDate 0),
       isErrorObject = (\<lambda>e. truthy (getprop e ''stack'') \<and> truthy (getprop e ''message'')),
       prettyPrintData = example_prettyPrintData,
       ERROR_TIME = 5000,
       SUCCESS_TIME = 5000,
       themeGlobal = JStr ''light-blue'',
       getUserLanguage = JStr ''en'',
       ACCOUNT_TYPE_NORMAL = JStr ''normal'',
       ACTIVITY_ACTION_TOPUP = ''walletActivity.topup'',
       ACTIVITY_ACTION_SEND = ''walletActivity.send'',
       ACTIVITY_ACTION_RECEIVE = ''walletActivity.receive'',
       torusWhiteLabel = None \<rparr>"

text \<open>An account service that is down: every call is rejected.\<close>

definition service_down :: "api_call \<Rightarrow> exn + jsval" where
  "service_down call = Inl (Rejected (JStr ''503''))"

text \<open>An account service that answers every call with an empty object.\<close>

definition service_ok :: "api_call \<Rightarrow> exn + jsval" where
  "service_ok call = Inr (JObj [])"

text \<open>
  A controller with two accounts, \<open>0xa\<close> selected and logged in, \<open>0xb\<close> known but without a
  token.
\<close>

definition example_controller :: controller where
  "example_controller =
     new_controller\<lparr> store :=
       [(''selectedAddress'', JStr ''0xa''),
        (''0xa'', JObj [(''selectedCurrency'', JStr ''USD''), (''theme'', JStr ''dark''),
                        (''jwtToken'', JStr ''token-a''), (''defaultPublicAddress'', JStr []),
                        (''pastTransactions'', JArr [])]),
        (''0xb'', JObj [(''selectedCurrency'', JStr ''EUR''), (''theme'', JStr ''light-blue''),
                        (''jwtToken'', JStr []), (''defaultPublicAddress'', JStr ''0xb0''),
                        (''pastTransactions'', JArr [])])] \<rparr>"

text \<open>
  Four fetched transactions: one pending and one confirmed transaction of \<open>0xa\<close> on the
  current network, one on another network, and one of another account.
\<close>

definition example_raw_tx ::
  "string \<Rightarrow> string \<Rightarrow> string \<Rightarrow> string \<Rightarrow> string \<Rightarrow> int \<Rightarrow> jsval" where
  "example_raw_tx net sender recipient st hash created =
     JObj [(''network'', JStr net), (''from'', JStr sender), (''to'', JStr recipient),
           (''status'', JStr st), (''transaction_hash'', JStr hash), (''created_at'', JNum created),
           (''id'', JNum created)]"

definition fetched_pending :: jsval where
  "fetched_pending = example_raw_tx ''mainnet'' ''0xA'' ''0xc'' ''submitted'' ''h1'' 10"

definition fetched_confirmed :: jsval where
  "fetched_confirmed = example_raw_tx ''mainnet'' ''0xd'' ''0xa'' ''confirmed'' ''h2'' 20"

definition fetched_other_network :: jsval where
  "fetched_other_network = example_raw_tx ''ropsten'' ''0xa'' ''0xc'' ''confirmed'' ''h3'' 30"

definition fetched_other_account :: jsval where
  "fetched_other_account = example_raw_tx ''mainnet'' ''0xe'' ''0xc'' ''confirmed'' ''h4'' 40"

text \<open>A confirmed transaction of \<open>0xa\<close> whose nonce is the name of an inherited property.\<close>

definition fetched_inherited_nonce :: jsval where
  "fetched_inherited_nonce =
     JObj [(''network'', JStr ''mainnet''), (''from'', JStr ''0xa''), (''to'', JStr ''0xc''),
           (''status'', JStr ''confirmed''), (''transaction_hash'', JStr ''h5''),
           (''created_at'', JNum 50), (''id'', JNum 50), (''nonce'', JStr ''constructor'')]"

definition example_txs :: "jsval list" where
  "example_txs = [fetched_pending, fetched_confirmed, fetched_other_network, fetched_other_account]"

text \<open>An open login dialog that has emitted nothing yet.\<close>

definition example_popup :: popupLogin where
  "example_popup =
     \<lparr> loginDialog = True, showModal = True, viewMoreOptions = False, emitted = [], popupLog = [] \<rparr>"


section \<open>Verification: nonce collisions\<close>

lemma map_of_add_position:
  "map_of (add_position k i m) k' =
     (if k' = k then Some ((case map_of m k of None \<Rightarrow> [] | Some g \<Rightarrow> g) @ [i]) else map_of m k')"
  by (cases "map_of m k") (auto simp: add_position_def update_conv' map_add_def split: option.splits)

lemma distinct_add_position:
  "distinct (map fst m) \<Longrightarrow> distinct (map fst (add_position k i m))"
  by (auto simp: add_position_def distinct_update map_of_eq_None_iff split: option.splits)

lemma build_upto_Suc:
  "build_upto xs (Suc m) = add_position (nonce (xs ! m)) m (build_upto xs m)"
  by (simp add: build_upto_def)

lemma build_upto_inv:
  "distinct (map fst (build_upto xs m)) \<and>
   (\<forall>k. map_of (build_upto xs m) k =
      (if nonce_group xs k m = [] then None else Some (nonce_group xs k m)))"
proof (induction m)
  case 0
  show ?case by (simp add: build_upto_def nonce_group_def)
next
  case (Suc m)
  then show ?case
    by (auto simp: build_upto_Suc map_of_add_position distinct_add_position nonce_group_def)
qed

lemma build_upto_entries:
  assumes "(k, g) \<in> set (build_upto xs (length xs))"
  shows "g = nonce_group xs k (length xs) \<and> g \<noteq> []"
proof -
  have "distinct (map fst (build_upto xs (length xs)))" using build_upto_inv[of xs "length xs"] by simp
  then have "map_of (build_upto xs (length xs)) k = Some g" using assms by simp
  then show ?thesis using build_upto_inv[of xs "length xs"] by (auto split: if_splits)
qed

lemma build_upto_keys:
  assumes "i < length xs"
  shows "nonce (xs ! i) \<in> fst ` set (build_upto xs (length xs))"
proof -
  have "i \<in> set (nonce_group xs (nonce (xs ! i)) (length xs))"
    using assms by (simp add: nonce_group_def)
  then have "nonce_group xs (nonce (xs ! i)) (length xs) \<noteq> []" by auto
  then have "map_of (build_upto xs (length xs)) (nonce (xs ! i)) \<noteq> None"
    using build_upto_inv[of xs "length xs"] by simp
  then show ?thesis by (simp add: map_of_eq_None_iff)
qed

lemma distinct_build_upto: "distinct (map fst (build_upto xs m))"
  using build_upto_inv[of xs m] by simp

text \<open>
  The first loop raises exactly when some nonce is the name of an inherited property;
  otherwise it builds the groups.
\<close>

lemma nonceMap_add_result:
  "nonceMap_add k i m =
     (if map_of m k = None \<and> k \<in> set Object_prototype_keys then Inl TypeError
      else Inr (add_position k i m))"
  by (simp add: nonceMap_add_def add_position_def split: option.splits)

lemma loop_upto_Suc:
  "loop_upto xs (Suc m) =
     (case loop_upto xs m of Inl error \<Rightarrow> Inl error
                           | Inr nm \<Rightarrow> nonceMap_add (nonce (xs ! m)) m nm)"
  by (simp add: loop_upto_def)

lemma loop_upto_result:
  "loop_upto xs m =
     (if \<exists>j<m. nonce (xs ! j) \<in> set Object_prototype_keys then Inl TypeError
      else Inr (build_upto xs m))"
proof (induction m)
  case 0
  show ?case by (simp add: loop_upto_def build_upto_def)
next
  case (Suc m)
  show ?case
  proof (cases "\<exists>j<m. nonce (xs ! j) \<in> set Object_prototype_keys")
    case True
    then have "\<exists>j<Suc m. nonce (xs ! j) \<in> set Object_prototype_keys" using less_Suc_eq by auto
    then show ?thesis using Suc True by (simp add: loop_upto_Suc)
  next
    case False
    then have "loop_upto xs m = Inr (build_upto xs m)" using Suc by auto
    then have l: "loop_upto xs (Suc m) = nonceMap_add (nonce (xs ! m)) m (build_upto xs m)"
      by (simp add: loop_upto_Suc)
    show ?thesis
    proof (cases "nonce (xs ! m) \<in> set Object_prototype_keys")
      case True
      have "nonce_group xs (nonce (xs ! m)) m = []"
        using False True by (auto simp: nonce_group_def filter_empty_conv)
      then have "map_of (build_upto xs m) (nonce (xs ! m)) = None"
        using build_upto_inv[of xs m] by simp
      moreover have "\<exists>j<Suc m. nonce (xs ! j) \<in> set Object_prototype_keys" using True by auto
      ultimately show ?thesis using l True by (simp add: nonceMap_add_result)
    next
      case nk: False
      have "\<not> (\<exists>j<Suc m. nonce (xs ! j) \<in> set Object_prototype_keys)"
        using False nk less_Suc_eq by auto
      then show ?thesis using l nk by (simp add: nonceMap_add_result build_upto_Suc)
    qed
  qed
qed

lemma build_nonceMap_result:
  "build_nonceMap xs =
     (if \<exists>x\<in>set xs. nonce x \<in> set Object_prototype_keys then Inl TypeError
      else Inr (build_upto xs (length xs)))"
proof -
  have "build_nonceMap xs = loop_upto xs (length xs)"
    by (simp add: build_nonceMap_def loop_upto_def)
  moreover have "(\<exists>j<length xs. nonce (xs ! j) \<in> set Object_prototype_keys) \<longleftrightarrow>
      (\<exists>x\<in>set xs. nonce x \<in> set Object_prototype_keys)"
    by (metis in_set_conv_nth)
  ultimately show ?thesis by (simp add: loop_upto_result)
qed

lemma cancelTxCalculate_result:
  "cancelTxCalculate T D xs =
     (if \<exists>x\<in>set xs. nonce x \<in> set Object_prototype_keys then Inl TypeError
      else Inr (fold (\<lambda>(k, g). mark_group T D g) (build_upto xs (length xs)) xs))"
  by (simp add: cancelTxCalculate_def build_nonceMap_result)

lemma mark_cancelled_is_cancel:
  "mark_cancelled T D (l\<lparr>is_cancel := b\<rparr>) x = mark_cancelled T D l x"
  by (simp add: mark_cancelled_def)

lemma fold_mark_cancelled:
  assumes "distinct js" "l \<notin> set js" "\<forall>j\<in>set js. j < length ys"
  shows "length (fold (\<lambda>i ys. ys[i := F (ys ! l) (ys ! i)]) js ys) = length ys \<and>
         (\<forall>j. fold (\<lambda>i ys. ys[i := F (ys ! l) (ys ! i)]) js ys ! j =
               (if j \<in> set js then F (ys ! l) (ys ! j) else ys ! j))"
  using assms
proof (induction js arbitrary: ys)
  case Nil
  then show ?case by simp
next
  case (Cons a js)
  let ?ys = "ys[a := F (ys ! l) (ys ! a)]"
  have IH: "length (fold (\<lambda>i ys. ys[i := F (ys ! l) (ys ! i)]) js ?ys) = length ?ys \<and>
         (\<forall>j. fold (\<lambda>i ys. ys[i := F (ys ! l) (ys ! i)]) js ?ys ! j =
               (if j \<in> set js then F (?ys ! l) (?ys ! j) else ?ys ! j))"
    using Cons.prems by (intro Cons.IH) auto
  have la: "l \<noteq> a" and ajs: "a \<notin> set js" and alen: "a < length ys"
    using Cons.prems by auto
  show ?case using IH la ajs alen by (auto simp: nth_list_update)
qed

lemma mark_group_nth:
  assumes "distinct g" "\<forall>j\<in>set g. j < length xs" "1 < length g"
  shows "length (mark_group T D g xs) = length xs \<and>
         (\<forall>j. mark_group T D g xs ! j =
            (if j = hd (sort_latest_first xs g) then (xs ! j)\<lparr>is_cancel := JBool True\<rparr>
             else if j \<in> set g then mark_cancelled T D (xs ! hd (sort_latest_first xs g)) (xs ! j)
             else xs ! j))"
proof -
  let ?s = "sort_latest_first xs g"
  let ?l = "hd ?s"
  let ?xs1 = "xs[?l := (xs ! ?l)\<lparr>is_cancel := JBool True\<rparr>]"
  have "length ?s = length g" by (simp add: sort_latest_first_def)
  then have sne: "?s \<noteq> []" using assms(3) by auto
  then have s: "?s = ?l # tl ?s" by simp
  have ds: "distinct ?s" and ss: "set ?s = set g"
    using assms(1) by (simp_all add: sort_latest_first_def)
  have dt: "distinct (tl ?s)" and lt: "?l \<notin> set (tl ?s)"
    using ds s by (metis distinct.simps(2))+
  have st: "set g = insert ?l (set (tl ?s))" using ss s by (metis list.simps(15))
  have lg: "?l < length xs" using st assms(2) by auto
  have b: "\<forall>j\<in>set (tl ?s). j < length ?xs1" using st assms(2) by auto
  have m: "mark_group T D g xs =
      fold (\<lambda>i ys. ys[i := mark_cancelled T D (ys ! ?l) (ys ! i)]) (tl ?s) ?xs1"
    using assms(3) by (simp add: mark_group_def Let_def)
  note f = fold_mark_cancelled[OF dt lt b, of "mark_cancelled T D"]
  show ?thesis unfolding m using f lt st lg
    by (auto simp: nth_list_update mark_cancelled_is_cancel)
qed

lemma sort_latest_first_cong:
  assumes "\<forall>j\<in>set g. date (ys ! j) = date (xs ! j)"
  shows "sort_latest_first ys g = sort_latest_first xs g"
proof -
  have "sort_key (\<lambda>i. - date (ys ! i)) g = sort_key (\<lambda>i. - date (xs ! i)) g"
    using assms
  proof (induction g)
    case Nil
    then show ?case by simp
  next
    case (Cons a g)
    have "insort_key (\<lambda>i. - date (ys ! i)) a zs = insort_key (\<lambda>i. - date (xs ! i)) a zs"
      if "set zs \<subseteq> set (a # g)" for zs
      using that Cons.prems by (induction zs) auto
    then show ?case using Cons by (simp add: subset_insertI2)
  qed
  then show ?thesis by (simp add: sort_latest_first_def)
qed

lemma mark_group_cong:
  assumes "distinct g" "\<forall>j\<in>set g. j < length xs" "length ys = length xs"
    and "\<forall>j\<in>set g. ys ! j = xs ! j" and "j \<in> set g"
  shows "mark_group T D g ys ! j = mark_group T D g xs ! j"
proof (cases "1 < length g")
  case True
  have s: "sort_latest_first ys g = sort_latest_first xs g"
    using assms(4) by (intro sort_latest_first_cong) simp
  have "hd (sort_latest_first xs g) \<in> set g"
    using True by (metis hd_in_set length_0_conv not_less_zero set_sort sort_latest_first_def length_sort)
  then show ?thesis
    using mark_group_nth[OF assms(1) _ True, of ys T D] mark_group_nth[OF assms(1,2) True, of T D]
      assms s by auto
next
  case False
  then show ?thesis using assms by (simp add: mark_group_def)
qed

lemma mark_group_outside:
  assumes "distinct g" "\<forall>j\<in>set g. j < length xs" "j \<notin> set g"
  shows "mark_group T D g xs ! j = xs ! j"
proof (cases "1 < length g")
  case True
  have "hd (sort_latest_first xs g) \<in> set g"
    using True by (metis hd_in_set length_0_conv not_less_zero set_sort sort_latest_first_def length_sort)
  then show ?thesis using mark_group_nth[OF assms(1,2) True, of T D] assms(3) by auto
next
  case False
  then show ?thesis by (simp add: mark_group_def)
qed

lemma length_mark_group:
  assumes "distinct g" "\<forall>j\<in>set g. j < length xs"
  shows "length (mark_group T D g xs) = length xs"
proof (cases "1 < length g")
  case True
  then show ?thesis using mark_group_nth[OF assms True, of T D] by simp
next
  case False
  then show ?thesis by (simp add: mark_group_def)
qed

lemma nonce_group_props:
  "distinct (nonce_group xs k n)"
  "j \<in> set (nonce_group xs k n) \<longleftrightarrow> j < n \<and> nonce (xs ! j) = k"
  "sorted_wrt (<) (nonce_group xs k n)"
  by (auto simp: nonce_group_def sorted_wrt_filter)

lemma fold_groups:
  assumes "distinct (map fst es)"
    and "\<forall>(k, g)\<in>set es. g = nonce_group xs k (length xs)"
    and "length ys = length xs"
    and "\<forall>j<length xs. nonce (xs ! j) \<in> fst ` set es \<longrightarrow> ys ! j = xs ! j"
  shows "length (fold (\<lambda>(k, g). mark_group T D g) es ys) = length xs \<and>
     (\<forall>j<length xs. fold (\<lambda>(k, g). mark_group T D g) es ys ! j =
        (if nonce (xs ! j) \<in> fst ` set es
         then mark_group T D (nonce_group xs (nonce (xs ! j)) (length xs)) xs ! j
         else ys ! j))"
  using assms
proof (induction es arbitrary: ys)
  case Nil
  then show ?case by simp
next
  case (Cons e es)
  obtain k g where e: "e = (k, g)" by (cases e)
  have g: "g = nonce_group xs k (length xs)" using Cons.prems(2) e by simp
  have dg: "distinct g" and bg: "\<forall>j\<in>set g. j < length ys"
    using g Cons.prems(3) by (simp_all add: nonce_group_props)
  have bgx: "\<forall>j\<in>set g. j < length xs" using bg Cons.prems(3) by simp
  have kes: "k \<notin> fst ` set es" using Cons.prems(1) e by simp
  let ?ys = "mark_group T D g ys"
  have len: "length ?ys = length xs"
    using length_mark_group[OF dg bg] Cons.prems(3) by simp
  have agree: "\<forall>j\<in>set g. ys ! j = xs ! j"
    using Cons.prems(4) g e by (simp add: nonce_group_props)
  have out: "?ys ! j = ys ! j" if "j \<notin> set g" for j
    using mark_group_outside[OF dg bg that] .
  have inn: "?ys ! j = mark_group T D g xs ! j" if "j \<in> set g" for j
    using mark_group_cong[OF dg bgx Cons.prems(3) agree that] .
  have p4: "\<forall>j<length xs. nonce (xs ! j) \<in> fst ` set es \<longrightarrow> ?ys ! j = xs ! j"
  proof (intro allI impI)
    fix j assume j: "j < length xs" and n: "nonce (xs ! j) \<in> fst ` set es"
    then have "nonce (xs ! j) \<noteq> k" using kes by auto
    then have "j \<notin> set g" using g by (simp add: nonce_group_props)
    then have "?ys ! j = ys ! j" by (rule out)
    then show "?ys ! j = xs ! j" using Cons.prems(4) j n e by simp
  qed
  have d: "distinct (map fst es)" using Cons.prems(1) by simp
  have p2: "\<forall>(k, g)\<in>set es. g = nonce_group xs k (length xs)" using Cons.prems(2) by simp
  note IH = Cons.IH[OF d p2 len p4]
  have f: "fold (\<lambda>(k, g). mark_group T D g) (e # es) ys = fold (\<lambda>(k, g). mark_group T D g) es ?ys"
    by (simp add: e)
  show ?case unfolding f
  proof (intro conjI allI impI)
    show "length (fold (\<lambda>(k, g). mark_group T D g) es ?ys) = length xs" using IH by simp
  next
    fix j assume j: "j < length xs"
    show "fold (\<lambda>(k, g). mark_group T D g) es ?ys ! j =
        (if nonce (xs ! j) \<in> fst ` set (e # es)
         then mark_group T D (nonce_group xs (nonce (xs ! j)) (length xs)) xs ! j
         else ys ! j)"
    proof (cases "nonce (xs ! j) \<in> fst ` set es")
      case True
      then show ?thesis using IH j by simp
    next
      case False
      show ?thesis
      proof (cases "nonce (xs ! j) = k")
        case True
        then have "j \<in> set g" using g j by (simp add: nonce_group_props)
        then show ?thesis using IH j False True inn g e by simp
      next
        case nk: False
        then have "j \<notin> set g" using g by (simp add: nonce_group_props)
        then show ?thesis using IH j False nk out e by simp
      qed
    qed
  qed
qed

lemma cancel_loop_nth:
  assumes "set es = set (build_upto xs (length xs))" "distinct (map fst es)"
  shows "length (fold (\<lambda>(k, g). mark_group T D g) es xs) = length xs \<and>
     (\<forall>j<length xs. fold (\<lambda>(k, g). mark_group T D g) es xs ! j =
         mark_group T D (nonce_group xs (nonce (xs ! j)) (length xs)) xs ! j)"
proof -
  have p2: "\<forall>(k, g)\<in>set es. g = nonce_group xs k (length xs)"
    using assms(1) build_upto_entries by auto
  have keys: "\<forall>j<length xs. nonce (xs ! j) \<in> fst ` set es"
    using assms(1) build_upto_keys by auto
  show ?thesis using fold_groups[OF assms(2) p2, of xs T D] keys by simp
qed

text \<open>
  The second loop visits the entries of \<open>nonceMap\<close> in the order \<open>Object.entries\<close> gives
  them. The groups are disjoint, so every order gives the same list.
\<close>

lemma cancel_loop_order:
  assumes "mset es = mset (build_upto xs (length xs))"
    and "\<forall>x\<in>set xs. nonce x \<notin> set Object_prototype_keys"
  shows "cancelTxCalculate T D xs = Inr (fold (\<lambda>(k, g). mark_group T D g) es xs)"
proof -
  have s: "set es = set (build_upto xs (length xs))" using assms(1) by (metis set_mset_mset)
  have "mset (map fst es) = mset (map fst (build_upto xs (length xs)))"
    using assms(1) by (metis mset_map)
  then have d: "distinct (map fst es)"
    using distinct_build_upto by (metis mset_eq_imp_distinct_iff)
  have "fold (\<lambda>(k, g). mark_group T D g) es xs =
        fold (\<lambda>(k, g). mark_group T D g) (build_upto xs (length xs)) xs"
    using cancel_loop_nth[OF s d, of T D]
      cancel_loop_nth[OF refl distinct_build_upto, where xs=xs and T=T and D=D]
    by (intro nth_equalityI) auto
  then show ?thesis using assms(2) by (simp add: cancelTxCalculate_result)
qed

lemma latest_first:
  assumes "sorted_wrt (<) g" "g \<noteq> []"
  shows "hd (sort_latest_first xs g) \<in> set g \<and>
         (\<forall>j\<in>set g. date (xs ! j) \<le> date (xs ! hd (sort_latest_first xs g))) \<and>
         (\<forall>j\<in>set g. j < hd (sort_latest_first xs g) \<longrightarrow>
              date (xs ! j) < date (xs ! hd (sort_latest_first xs g)))"
proof -
  let ?f = "\<lambda>i. - date (xs ! i)"
  let ?s = "sort_key ?f g"
  let ?l = "hd ?s"
  have sne: "?s \<noteq> []" using assms(2) by (metis length_0_conv length_sort)
  then have s: "?s = ?l # tl ?s" by simp
  have ss: "set ?s = set g" by simp
  have lg: "?l \<in> set g" using sne ss hd_in_set by blast
  have "sorted (map ?f ?s)" by (rule sorted_sort_key)
  then have "sorted (map ?f (?l # tl ?s))" using s by simp
  then have "\<forall>j\<in>set (tl ?s). ?f ?l \<le> ?f j" by simp
  then have "\<forall>j\<in>set (?l # tl ?s). ?f ?l \<le> ?f j" by simp
  then have le: "\<forall>j\<in>set g. ?f ?l \<le> ?f j" using s ss by metis
  have "filter (\<lambda>y. ?f y = ?f ?l) ?s = filter (\<lambda>y. ?f y = ?f ?l) g"
    by (rule sort_key_stable)
  moreover have "filter (\<lambda>y. ?f y = ?f ?l) ?s = ?l # filter (\<lambda>y. ?f y = ?f ?l) (tl ?s)"
    using s by (metis (mono_tags, lifting) filter.simps(2))
  ultimately have fg: "filter (\<lambda>y. ?f y = ?f ?l) g = ?l # filter (\<lambda>y. ?f y = ?f ?l) (tl ?s)"
    by simp
  have "sorted_wrt (<) (filter (\<lambda>y. ?f y = ?f ?l) g)" using assms(1) by (rule sorted_wrt_filter)
  then have first: "\<forall>j\<in>set (filter (\<lambda>y. ?f y = ?f ?l) g). ?l \<le> j"
    unfolding fg by auto
  have lt: "\<forall>j\<in>set g. j < ?l \<longrightarrow> ?f ?l < ?f j"
  proof (intro ballI impI)
    fix j assume j: "j \<in> set g" and jl: "j < ?l"
    have "?f j \<noteq> ?f ?l"
    proof
      assume "?f j = ?f ?l"
      then have "j \<in> set (filter (\<lambda>y. ?f y = ?f ?l) g)" using j by simp
      then have "?l \<le> j" using first by blast
      then show False using jl by simp
    qed
    then show "?f ?l < ?f j" using le j by force
  qed
  show ?thesis unfolding sort_latest_first_def using lg le lt by auto
qed

text \<open>
  Claim C1, as the code has it. \<open>nonceMap\<close> is a plain object, and a nonce that is the name of a
  property inherited from \<open>Object.prototype\<close> (\<open>constructor\<close>, \<open>toString\<close>, \<open>__proto__\<close>,
  ...) makes \<open>cancelTxCalculate\<close> raise a TypeError. For every list \<open>pastTx\<close> without
  such a nonce, \<open>cancelTxCalculate\<close> returns the same transactions in the same positions.
  A transaction whose nonce no other transaction has is returned unchanged. In a group
  \<open>g\<close> of two or more transactions with one nonce, the transaction with the latest date
  (position \<open>l\<close>; among several with that date, the first in the list) gets
  \<open>is_cancel = true\<close> and nothing else; every other transaction of the group gets
  \<open>hasCancel = true\<close>, the status \<open>cancelled\<close> when the status of the latest is \<open>confirmed\<close>
  and \<open>cancelling\<close> otherwise, the date the cancellation was initiated, and the latest
  transaction's \<open>etherscanLink\<close>, \<open>gas\<close> (as \<open>cancelGas\<close>) and \<open>gasPrice\<close> (as
  \<open>cancelGasPrice\<close>); every other field keeps its value.
\<close>

theorem cancelTxCalculate_marks_collisions:
  "((\<exists>x\<in>set pastTx. nonce x \<in> set Object_prototype_keys) \<longrightarrow>
      cancelTxCalculate fmtTime fmtDate pastTx = Inl TypeError) \<and>
   ((\<forall>x\<in>set pastTx. nonce x \<notin> set Object_prototype_keys) \<longrightarrow>
    (\<exists>result. cancelTxCalculate fmtTime fmtDate pastTx = Inr result \<and>
      length result = length pastTx \<and>
      (\<forall>i<length pastTx.
        (let x = pastTx ! i;
             r = result ! i;
             g = filter (\<lambda>j. nonce (pastTx ! j) = nonce x) [0..<length pastTx]
         in (length g \<le> 1 \<longrightarrow> r = x) \<and>
            (1 < length g \<longrightarrow>
               (\<exists>l\<in>set g.
                  (\<forall>j\<in>set g. date (pastTx ! j) \<le> date (pastTx ! l)) \<and>
                  (\<forall>j\<in>set g. j < l \<longrightarrow> date (pastTx ! j) < date (pastTx ! l)) \<and>
                  (i = l \<longrightarrow> r = x\<lparr>is_cancel := JBool True\<rparr>) \<and>
                  (i \<noteq> l \<longrightarrow>
                     r = x\<lparr> hasCancel := JBool True,
                            status := (if status (pastTx ! l) = JStr ''confirmed''
                                       then JStr ''cancelled'' else JStr ''cancelling''),
                            cancelDateInitiated :=
                              JStr (fmtTime (date (pastTx ! l)) @ '' - '' @ fmtDate (date (pastTx ! l))),
                            etherscanLink := etherscanLink (pastTx ! l),
                            cancelGas := gas (pastTx ! l),
                            cancelGasPrice := gasPrice (pastTx ! l) \<rparr>)))))))"
proof (intro conjI impI)
  assume "\<exists>x\<in>set pastTx. nonce x \<in> set Object_prototype_keys"
  then show "cancelTxCalculate fmtTime fmtDate pastTx = Inl TypeError"
    by (simp add: cancelTxCalculate_result)
next
  assume plain: "\<forall>x\<in>set pastTx. nonce x \<notin> set Object_prototype_keys"
  let ?result = "fold (\<lambda>(k, g). mark_group fmtTime fmtDate g) (build_upto pastTx (length pastTx)) pastTx"
  have res: "cancelTxCalculate fmtTime fmtDate pastTx = Inr ?result"
    using plain by (simp add: cancelTxCalculate_result)
  note c = cancel_loop_nth[OF refl distinct_build_upto, where xs=pastTx and T=fmtTime and D=fmtDate]
  have len: "length ?result = length pastTx" using c by simp
  have main: "let x = pastTx ! i;
             r = ?result ! i;
             g = filter (\<lambda>j. nonce (pastTx ! j) = nonce x) [0..<length pastTx]
         in (length g \<le> 1 \<longrightarrow> r = x) \<and>
            (1 < length g \<longrightarrow>
               (\<exists>l\<in>set g.
                  (\<forall>j\<in>set g. date (pastTx ! j) \<le> date (pastTx ! l)) \<and>
                  (\<forall>j\<in>set g. j < l \<longrightarrow> date (pastTx ! j) < date (pastTx ! l)) \<and>
                  (i = l \<longrightarrow> r = x\<lparr>is_cancel := JBool True\<rparr>) \<and>
                  (i \<noteq> l \<longrightarrow>
                     r = x\<lparr> hasCancel := JBool True,
                            status := (if status (pastTx ! l) = JStr ''confirmed''
                                       then JStr ''cancelled'' else JStr ''cancelling''),
                            cancelDateInitiated :=
                              JStr (fmtTime (date (pastTx ! l)) @ '' - '' @ fmtDate (date (pastTx ! l))),
                            etherscanLink := etherscanLink (pastTx ! l),
                            cancelGas := gas (pastTx ! l),
                            cancelGasPrice := gasPrice (pastTx ! l) \<rparr>)))"
    if i: "i < length pastTx" for i
  proof -
    let ?g = "nonce_group pastTx (nonce (pastTx ! i)) (length pastTx)"
    have r: "?result ! i = mark_group fmtTime fmtDate ?g pastTx ! i"
      using c i by simp
    have ig: "i \<in> set ?g" using i by (simp add: nonce_group_props)
    then have gne: "?g \<noteq> []" by auto
    have dg: "distinct ?g" and bg: "\<forall>j\<in>set ?g. j < length pastTx"
      by (simp_all add: nonce_group_props)
    note lf = latest_first[OF nonce_group_props(3) gne, of pastTx]
    have small: "mark_group fmtTime fmtDate ?g pastTx ! i = pastTx ! i" if "length ?g \<le> 1"
      using that by (simp add: mark_group_def)
    have big: "mark_group fmtTime fmtDate ?g pastTx ! i =
        (if i = hd (sort_latest_first pastTx ?g) then (pastTx ! i)\<lparr>is_cancel := JBool True\<rparr>
         else mark_cancelled fmtTime fmtDate (pastTx ! hd (sort_latest_first pastTx ?g)) (pastTx ! i))"
      if "1 < length ?g"
      using mark_group_nth[OF dg bg that, of fmtTime fmtDate] ig by simp
    show ?thesis
      unfolding Let_def nonce_group_def[symmetric] r
    proof (intro conjI impI)
      assume "length ?g \<le> 1"
      then show "mark_group fmtTime fmtDate ?g pastTx ! i = pastTx ! i" by (rule small)
    next
      assume b: "1 < length ?g"
      show "\<exists>l\<in>set ?g.
                  (\<forall>j\<in>set ?g. date (pastTx ! j) \<le> date (pastTx ! l)) \<and>
                  (\<forall>j\<in>set ?g. j < l \<longrightarrow> date (pastTx ! j) < date (pastTx ! l)) \<and>
                  (i = l \<longrightarrow> mark_group fmtTime fmtDate ?g pastTx ! i = (pastTx ! i)\<lparr>is_cancel := JBool True\<rparr>) \<and>
                  (i \<noteq> l \<longrightarrow>
                     mark_group fmtTime fmtDate ?g pastTx ! i = (pastTx ! i)\<lparr> hasCancel := JBool True,
                            status := (if status (pastTx ! l) = JStr ''confirmed''
                                       then JStr ''cancelled'' else JStr ''cancelling''),
                            cancelDateInitiated :=
                              JStr (fmtTime (date (pastTx ! l)) @ '' - '' @ fmtDate (date (pastTx ! l))),
                            etherscanLink := etherscanLink (pastTx ! l),
                            cancelGas := gas (pastTx ! l),
                            cancelGasPrice := gasPrice (pastTx ! l) \<rparr>)"
        using lf big[OF b]
        by (intro bexI[of _ "hd (sort_latest_first pastTx ?g)"]) (auto simp: mark_cancelled_def)
    qed
  qed
  show "\<exists>result. cancelTxCalculate fmtTime fmtDate pastTx = Inr result \<and>
      length result = length pastTx \<and>
      (\<forall>i<length pastTx.
        (let x = pastTx ! i;
             r = result ! i;
             g = filter (\<lambda>j. nonce (pastTx ! j) = nonce x) [0..<length pastTx]
         in (length g \<le> 1 \<longrightarrow> r = x) \<and>
            (1 < length g \<longrightarrow>
               (\<exists>l\<in>set g.
                  (\<forall>j\<in>set g. date (pastTx ! j) \<le> date (pastTx ! l)) \<and>
                  (\<forall>j\<in>set g. j < l \<longrightarrow> date (pastTx ! j) < date (pastTx ! l)) \<and>
                  (i = l \<longrightarrow> r = x\<lparr>is_cancel := JBool True\<rparr>) \<and>
                  (i \<noteq> l \<longrightarrow>
                     r = x\<lparr> hasCancel := JBool True,
                            status := (if status (pastTx ! l) = JStr ''confirmed''
                                       then JStr ''cancelled'' else JStr ''cancelling''),
                            cancelDateInitiated :=
                              JStr (fmtTime (date (pastTx ! l)) @ '' - '' @ fmtDate (date (pastTx ! l))),
                            etherscanLink := etherscanLink (pastTx ! l),
                            cancelGas := gas (pastTx ! l),
                            cancelGasPrice := gasPrice (pastTx ! l) \<rparr>)))))"
    using res len main by (intro exI[of _ ?result]) blast
qed

text \<open>
  The theorem at \<open>example_pastTx\<close>: positions 0 and 2 share the nonce \<open>0x1\<close>, position 2 is
  the later one, position 1 is alone with its nonce.
\<close>

theorem cancelTxCalculate_marks_collisions_witness:
  "\<exists>result. cancelTxCalculate (\<lambda>t. ''12:00'') (\<lambda>t. ''1 Jan'') example_pastTx = Inr result \<and>
   length result = 3 \<and>
   result ! 0 =
     (example_pastTx ! 0)\<lparr> hasCancel := JBool True, status := JStr ''cancelled'',
        cancelDateInitiated := JStr ''12:00 - 1 Jan'',
        etherscanLink := etherscanLink (example_pastTx ! 2),
        cancelGas := JNum 21000, cancelGasPrice := JNum 300 \<rparr> \<and>
   result ! 1 = example_pastTx ! 1 \<and>
   result ! 2 = (example_pastTx ! 2)\<lparr>is_cancel := JBool True\<rparr>"
proof -
  let ?T = "\<lambda>t::int. ''12:00''" and ?D = "\<lambda>t::int. ''1 Jan''"
  have len: "length example_pastTx = 3" by (simp add: example_pastTx_def)
  have upt: "[0..<3] = [0, 1, 2]" by (simp add: upt_rec)
  have plain: "\<forall>x\<in>set example_pastTx. nonce x \<notin> set Object_prototype_keys"
    by (simp add: example_pastTx_def example_tx_def Object_prototype_keys_def)
  from cancelTxCalculate_marks_collisions[of example_pastTx ?T ?D, THEN conjunct2, THEN mp, OF plain]
  obtain result where res: "cancelTxCalculate ?T ?D example_pastTx = Inr result"
    and rlen: "length result = length example_pastTx"
    and t: "\<And>i. i < length example_pastTx \<Longrightarrow>
        (let x = example_pastTx ! i;
             r = result ! i;
             g = filter (\<lambda>j. nonce (example_pastTx ! j) = nonce x) [0..<length example_pastTx]
         in (length g \<le> 1 \<longrightarrow> r = x) \<and>
            (1 < length g \<longrightarrow>
               (\<exists>l\<in>set g.
                  (\<forall>j\<in>set g. date (example_pastTx ! j) \<le> date (example_pastTx ! l)) \<and>
                  (\<forall>j\<in>set g. j < l \<longrightarrow> date (example_pastTx ! j) < date (example_pastTx ! l)) \<and>
                  (i = l \<longrightarrow> r = x\<lparr>is_cancel := JBool True\<rparr>) \<and>
                  (i \<noteq> l \<longrightarrow>
                     r = x\<lparr> hasCancel := JBool True,
                            status := (if status (example_pastTx ! l) = JStr ''confirmed''
                                       then JStr ''cancelled'' else JStr ''cancelling''),
                            cancelDateInitiated :=
                              JStr (?T (date (example_pastTx ! l)) @ '' - '' @ ?D (date (example_pastTx ! l))),
                            etherscanLink := etherscanLink (example_pastTx ! l),
                            cancelGas := gas (example_pastTx ! l),
                            cancelGasPrice := gasPrice (example_pastTx ! l) \<rparr>))))"
    by blast
  have i0: "(0::nat) < length example_pastTx" and i1: "(1::nat) < length example_pastTx"
    and i2: "(2::nat) < length example_pastTx" using len by simp_all
  have "result ! 0 =
     (example_pastTx ! 0)\<lparr> hasCancel := JBool True, status := JStr ''cancelled'',
        cancelDateInitiated := JStr ''12:00 - 1 Jan'',
        etherscanLink := etherscanLink (example_pastTx ! 2),
        cancelGas := JNum 21000, cancelGasPrice := JNum 300 \<rparr> \<and>
   result ! 1 = example_pastTx ! 1 \<and>
   result ! 2 = (example_pastTx ! 2)\<lparr>is_cancel := JBool True\<rparr>"
    using t[OF i0] t[OF i1] t[OF i2]
    unfolding len upt
    by (simp add: example_pastTx_def example_tx_def Let_def)
  then show ?thesis using res rlen len by simp
qed

text \<open>
  A single transaction whose nonce is \<open>constructor\<close>: no other transaction has its nonce,
  and it is not returned; \<open>nonceMap['constructor']\<close> is the inherited function \<open>Object\<close>,
  and \<open>nonceMap['constructor'].push\<close> is not a function.
\<close>

theorem cancelTxCalculate_inherited_nonce_counterexample:
  "cancelTxCalculate (\<lambda>t. ''12:00'') (\<lambda>t. ''1 Jan'') [inherited_nonce_tx] = Inl TypeError \<and>
   cancelTxCalculate (\<lambda>t. ''12:00'') (\<lambda>t. ''1 Jan'') [inherited_nonce_tx] \<noteq> Inr [inherited_nonce_tx]"
  by (simp add: cancelTxCalculate_def build_nonceMap_def nonceMap_add_def inherited_nonce_tx_def
      example_tx_def Object_prototype_keys_def)

section \<open>Verification: the account store\<close>

lemma addressOrSelected_idem:
  "addressOrSelected c (addressOrSelected c address) = addressOrSelected c address"
  by (simp add: addressOrSelected_def js_or_def)

lemma state_addressOrSelected: "state c (addressOrSelected c address) = state c address"
  by (simp add: state_def addressOrSelected_idem)

lemma getState_updateStore:
  "getprop (getState (snd (updateStore w newPartialState address c))) k =
     (if k = js_string (addressOrSelected c address)
      then fst (updateStore w newPartialState address c)
      else getprop (getState c) k)"
  by (simp add: updateStore_def Let_def getState_def update_conv')

lemma updateStore_only_store:
  "snd (updateStore w newPartialState address c) =
     c\<lparr>store := store (snd (updateStore w newPartialState address c))\<rparr>"
  by (simp add: updateStore_def Let_def)

text \<open>
  What \<open>mergeObject\<close> builds, property by property. \<open>destination\<close> is filled by
  assignments, so the last assignment to a key decides its value.
\<close>

lemma map_of_fold_setProperty:
  "map_of (fold (\<lambda>kv destination.
        if skip (fst kv) then destination else setProperty (fst kv) (f kv) destination) source start) k =
     (if skip k \<or> k = ''__proto__'' then map_of start k
      else (case map_of (rev source) k of None \<Rightarrow> map_of start k | Some v \<Rightarrow> Some (f (k, v))))"
proof (induction source arbitrary: start)
  case Nil
  then show ?case by simp
next
  case (Cons kv source)
  obtain k' v' where kv: "kv = (k', v')" by (cases kv)
  show ?case
    by (auto simp: kv Cons.IH setProperty_def update_conv' map_add_def split: option.splits)
qed

lemma mergeObject_fold:
  "mergeObject target source =
     fold
       (\<lambda>kv destination.
          if propertyIsUnsafe target (fst kv) then destination
          else setProperty (fst kv)
                 (if propertyIsOnObject target (fst kv) \<and> isMergeableObject (snd kv)
                  then (case snd kv of
                          JObj kvs \<Rightarrow> deepmerge (getprop target (fst kv)) kvs
                        | v \<Rightarrow> v)
                  else cloneUnlessOtherwiseSpecified (snd kv))
                 destination)
       source
       (fold
          (\<lambda>kv destination.
             if False then destination
             else setProperty (fst kv) (cloneUnlessOtherwiseSpecified (snd kv)) destination)
          (own_entries target)
          [])"
  by (subst mergeObject.simps)
     (simp add: deepmerge_def cloneUnlessOtherwiseSpecified_def cong: jsval.case_cong if_cong)

lemma map_of_mergeObject:
  "map_of (mergeObject target source) k =
     (if k = ''__proto__'' then None
      else if propertyIsUnsafe target k
      then map_option cloneUnlessOtherwiseSpecified (map_of (rev (own_entries target)) k)
      else (case map_of (rev source) k of
              None \<Rightarrow> map_option cloneUnlessOtherwiseSpecified (map_of (rev (own_entries target)) k)
            | Some v \<Rightarrow>
                Some (if propertyIsOnObject target k \<and> isMergeableObject v
                      then (case v of JObj kvs \<Rightarrow> deepmerge (getprop target k) kvs | u \<Rightarrow> u)
                      else cloneUnlessOtherwiseSpecified v)))"
proof -
  define f where "f = (\<lambda>kv. if propertyIsOnObject target (fst kv) \<and> isMergeableObject (snd kv)
                  then (case snd kv of
                          JObj kvs \<Rightarrow> deepmerge (getprop target (fst kv)) kvs
                        | v \<Rightarrow> v)
                  else cloneUnlessOtherwiseSpecified (snd kv))"
  define g where "g = (\<lambda>kv::string \<times> jsval. cloneUnlessOtherwiseSpecified (snd kv))"
  define start where "start = fold (\<lambda>kv destination.
             if (\<lambda>k. False) (fst kv) then destination
             else setProperty (fst kv) (g kv) destination) (own_entries target) []"
  have s: "map_of start k =
      (if k = ''__proto__'' then None
       else map_option cloneUnlessOtherwiseSpecified (map_of (rev (own_entries target)) k))"
    unfolding start_def map_of_fold_setProperty[where skip="\<lambda>k. False" and f=g]
    by (simp add: g_def split: option.splits)
  have m: "mergeObject target source =
      fold (\<lambda>kv destination.
              if propertyIsUnsafe target (fst kv) then destination
              else setProperty (fst kv) (f kv) destination) source start"
    unfolding f_def g_def start_def by (subst mergeObject_fold) simp
  show ?thesis
    unfolding m map_of_fold_setProperty[where skip="propertyIsUnsafe target" and f=f] s
    by (simp add: f_def split: option.splits cong: jsval.case_cong)
qed


lemma deepmerge_mergeObject:
  "deepmerge target source =
     JObj (mergeObject (if is_array target then JObj [] else target) source)"
  by (simp add: deepmerge_def cloneUnlessOtherwiseSpecified_def)

lemma clone_not_object [simp]:
  "(\<And>kvs. v \<noteq> JObj kvs) \<Longrightarrow> cloneUnlessOtherwiseSpecified v = v"
  by (cases v) (auto simp: cloneUnlessOtherwiseSpecified_def)


text \<open>The copy of a value with ordinary keys is the value.\<close>

lemma update_fresh: "k \<notin> fst ` set al \<Longrightarrow> AList.update k v al = al @ [(k, v)]"
  by (induction al) auto

lemma fold_update_fresh:
  "distinct (map fst kvs) \<Longrightarrow> fst ` set kvs \<inter> fst ` set start = {} \<Longrightarrow>
   fold (\<lambda>kv destination. AList.update (fst kv) (snd kv) destination) kvs start = start @ kvs"
proof (induction kvs arbitrary: start)
  case Nil
  then show ?case by simp
next
  case (Cons kv kvs)
  have f: "fst kv \<notin> fst ` set start" using Cons.prems(2) by auto
  have "fst ` set kvs \<inter> fst ` set (start @ [kv]) = {}" using Cons.prems by auto
  then show ?case using Cons.IH[of "start @ [kv]"] Cons.prems(1) f by (simp add: update_fresh)
qed

lemma clone_ordinaryKeys: "ordinaryKeys v \<Longrightarrow> cloneUnlessOtherwiseSpecified v = v"
proof (induction v rule: ordinaryKeys.induct)
  case (1 kvs)
  have d: "distinct (map fst kvs)" using 1(2) by simp
  have p: "''__proto__'' \<in> set Object_prototype_keys" by (simp add: Object_prototype_keys_def)
  have step: "(if propertyIsUnsafe (JObj []) (fst kv) then destination
          else setProperty (fst kv)
                 (if propertyIsOnObject (JObj []) (fst kv) \<and> isMergeableObject (snd kv)
                  then (case snd kv of
                          JObj kvs \<Rightarrow> deepmerge (getprop (JObj []) (fst kv)) kvs
                        | v \<Rightarrow> v)
                  else cloneUnlessOtherwiseSpecified (snd kv))
                 destination) = AList.update (fst kv) (snd kv) destination"
    if "kv \<in> set kvs" for kv destination
  proof -
    have k: "fst kv \<notin> set Object_prototype_keys" and o: "ordinaryKeys (snd kv)"
      using that 1(2) by auto
    have "cloneUnlessOtherwiseSpecified (snd kv) = snd kv" using 1(1)[OF that o] .
    moreover have "fst kv \<noteq> ''__proto__''" using k p by auto
    ultimately show ?thesis using k by (simp add: propertyIsUnsafe_def setProperty_def)
  qed
  have "mergeObject (JObj []) kvs =
      fold (\<lambda>kv destination. AList.update (fst kv) (snd kv) destination) kvs []"
    unfolding mergeObject_fold using step by (intro fold_cong) auto
  then have "mergeObject (JObj []) kvs = kvs" using fold_update_fresh[OF d, of "[]"] by simp
  then show ?case by (simp add: cloneUnlessOtherwiseSpecified_def)
qed (simp_all add: cloneUnlessOtherwiseSpecified_def)

lemma ordinary_keys [simp]:
  "''theme'' \<notin> set Object_prototype_keys" "''theme'' \<notin> set Date_prototype_keys"
  "''pastTransactions'' \<notin> set Object_prototype_keys" "''pastTransactions'' \<notin> set Date_prototype_keys"
  by (simp_all add: Object_prototype_keys_def Date_prototype_keys_def)

text \<open>
  A single property with an ordinary name and a value that is not a plain object: the
  merged record has it with that value, whatever the target is.
\<close>

lemma deepmerge_single:
  assumes "k \<notin> set Object_prototype_keys" "k \<notin> set Date_prototype_keys" "\<forall>kvs. v \<noteq> JObj kvs"
  shows "getprop (deepmerge target [(k, v)]) k = v"
proof -
  let ?t = "if is_array target then JObj [] else target"
  have p: "k \<noteq> ''__proto__''" using assms(1) by (auto simp: Object_prototype_keys_def)
  have u: "\<not> propertyIsUnsafe ?t k"
    using assms(1,2) by (cases target) (auto simp: propertyIsUnsafe_def)
  have c: "cloneUnlessOtherwiseSpecified v = v" using assms(3) by simp
  have "map_of (mergeObject ?t [(k, v)]) k = Some v"
    unfolding map_of_mergeObject using p u c assms(3) by (cases v) auto
  then show ?thesis unfolding deepmerge_mergeObject by simp
qed



text \<open>
  Claim C8, as the code has it. \<open>updateStore\<close> writes one property of the store's state object, the
  one named by the address (by the selected address when none is passed); every other
  property keeps its value, and nothing else in the controller changes. The store keeps
  the selected address in the same object, under the key \<open>selectedAddress\<close>. So, for
  every address that is not the word \<open>selectedAddress\<close> itself, the \<open>selectedAddress\<close> field
  is unchanged, and so is the account state that \<open>state\<close> finds for any other address.
\<close>

theorem updateStore_frame:
  "(\<forall>k. k \<noteq> js_string (addressOrSelected c address) \<longrightarrow>
       getprop (getState (snd (updateStore w newPartialState address c))) k =
         getprop (getState c) k) \<and>
   (js_string (addressOrSelected c address) \<noteq> ''selectedAddress'' \<longrightarrow>
       getprop (getState (snd (updateStore w newPartialState address c))) ''selectedAddress'' =
         getprop (getState c) ''selectedAddress'' \<and>
       (\<forall>other. js_string (addressOrSelected c other) \<noteq> js_string (addressOrSelected c address)
          \<longrightarrow> state (snd (updateStore w newPartialState address c)) other = state c other)) \<and>
   snd (updateStore w newPartialState address c) =
     c\<lparr>store := store (snd (updateStore w newPartialState address c))\<rparr>"
proof (intro conjI allI impI)
  let ?c = "snd (updateStore w newPartialState address c)"
  let ?key = "js_string (addressOrSelected c address)"
  note g = getState_updateStore[of w newPartialState address c]
  show "getprop (getState ?c) k = getprop (getState c) k" if "k \<noteq> ?key" for k
    using that by (simp add: g)
  show "?c = c\<lparr>store := store ?c\<rparr>" by (rule updateStore_only_store)
  assume n: "?key \<noteq> ''selectedAddress''"
  then show sel: "getprop (getState ?c) ''selectedAddress'' = getprop (getState c) ''selectedAddress''"
    by (simp add: g)
  then have a: "addressOrSelected ?c other = addressOrSelected c other" for other
    by (simp add: addressOrSelected_def)
  show "state ?c other = state c other"
    if "js_string (addressOrSelected c other) \<noteq> ?key" for other
    using that by (simp add: state_def a g Let_def)
qed

text \<open>
  The theorem at \<open>example_controller\<close>: a new theme for \<open>0xb\<close> leaves the selected address
  and the account state of \<open>0xa\<close> as they were.
\<close>

theorem updateStore_frame_witness:
  "js_string (addressOrSelected example_controller (JStr ''0xb'')) \<noteq> ''selectedAddress'' \<and>
   getprop (getState (snd (updateStore (example_world service_down) [(''theme'', JStr ''dark'')]
       (JStr ''0xb'') example_controller))) ''selectedAddress'' = JStr ''0xa'' \<and>
   state (snd (updateStore (example_world service_down) [(''theme'', JStr ''dark'')]
       (JStr ''0xb'') example_controller)) (JStr ''0xa'') =
     state example_controller (JStr ''0xa'')"
proof -
  have h: "js_string (addressOrSelected example_controller (JStr ''0xb'')) \<noteq> ''selectedAddress''"
    by (simp add: addressOrSelected_def js_or_def)
  have o: "js_string (addressOrSelected example_controller (JStr ''0xa'')) \<noteq>
           js_string (addressOrSelected example_controller (JStr ''0xb''))"
    by (simp add: addressOrSelected_def js_or_def)
  have s: "getprop (getState example_controller) ''selectedAddress'' = JStr ''0xa''"
    by (simp add: getState_def example_controller_def new_controller_def)
  note f = updateStore_frame[of example_controller "JStr ''0xb''" "example_world service_down"
      "[(''theme'', JStr ''dark'')]"]
  show ?thesis using h f o s by simp
qed

text \<open>
  At the address \<open>selectedAddress\<close> the record \<open>updateStore\<close> writes is the field that
  holds the selected address: the store keeps both in one object. The field held \<open>0xa\<close>
  and holds the merged record afterwards.
\<close>

theorem updateStore_selectedAddress_counterexample:
  "getprop (getState example_controller) ''selectedAddress'' = JStr ''0xa'' \<and>
   getprop (getState (snd (updateStore (example_world service_down) [(''theme'', JStr ''dark'')]
       (JStr ''selectedAddress'') example_controller))) ''selectedAddress'' =
     JObj [(''theme'', JStr ''dark'')]"
  by code_simp

section \<open>Verification: error and success messages\<close>

lemma fold_run_timer_errorStore:
  "errorStore (fold (\<lambda>(d, a). run_timer a) ds c) =
     (if ResetErrorStore \<in> snd ` set ds then JStr [] else errorStore c)"
proof (induction ds arbitrary: c)
  case Nil
  then show ?case by simp
next
  case (Cons x ds)
  obtain d a where x: "x = (d, a)" by (cases x)
  show ?case by (cases a) (auto simp: x Cons.IH)
qed

lemma fold_run_timer_successStore:
  "successStore (fold (\<lambda>(d, a). run_timer a) ds c) =
     (if ResetSuccessStore \<in> snd ` set ds then JStr [] else successStore c)"
proof (induction ds arbitrary: c)
  case Nil
  then show ?case by simp
next
  case (Cons x ds)
  obtain d a where x: "x = (d, a)" by (cases x)
  show ?case by (cases a) (auto simp: x Cons.IH)
qed

lemma elapse_errorStore:
  "(d, ResetErrorStore) \<in> set (timers c) \<Longrightarrow> d \<le> t \<Longrightarrow> errorStore (elapse t c) = JStr []"
  by (force simp: elapse_def Let_def fold_run_timer_errorStore)

lemma elapse_successStore:
  "(d, ResetSuccessStore) \<in> set (timers c) \<Longrightarrow> d \<le> t \<Longrightarrow> successStore (elapse t c) = JStr []"
  by (force simp: elapse_def Let_def fold_run_timer_successStore)

text \<open>
  Claim C6, as the code has it. \<open>handleError\<close> stores: for an Error-like value, the fixed
  sentence followed by the error's message; a non-empty string as it is; any other
  object (an array, a date, a plain object) as \<open>Error:\<close> followed by its pretty-printed
  text, or the fixed fallback when that text is empty; and any other value as it is
  when it is truthy (a number other than zero, \<open>true\<close>) and as the empty string when it
  is falsy. It sets a timer of \<open>ERROR_TIME\<close> milliseconds, and when that time has passed
  the error store holds the empty string. \<open>handleSuccess\<close> does the same with the success
  store, \<open>Success:\<close>, the fallback \<open>Success\<close> and \<open>SUCCESS_TIME\<close>, without the case of an
  Error-like value.
\<close>

theorem handleError_handleSuccess_stores:
  "errorStore (handleError w error c) =
     (if isErrorObject w error then
        JStr (''Oops, That didn't work. Pls reload and try again. \<newline>'' @
              js_string (getprop error ''message''))
      else if truthy error \<and> typeof_string error then error
      else if truthy error \<and> typeof_object error then
        JStr (if prettyPrintData w error \<noteq> [] then ''Error: '' @ prettyPrintData w error
              else ''Something went wrong. Pls try again'')
      else if truthy error then error
      else JStr []) \<and>
   timers (handleError w error c) = timers c @ [(ERROR_TIME w, ResetErrorStore)] \<and>
   errorStore (elapse (ERROR_TIME w) (handleError w error c)) = JStr [] \<and>
   successStore (handleSuccess w message c) =
     (if truthy message \<and> typeof_string message then message
      else if truthy message \<and> typeof_object message then
        JStr (if prettyPrintData w message \<noteq> [] then ''Success: '' @ prettyPrintData w message
              else ''Success'')
      else if truthy message then message
      else JStr []) \<and>
   timers (handleSuccess w message c) = timers c @ [(SUCCESS_TIME w, ResetSuccessStore)] \<and>
   successStore (elapse (SUCCESS_TIME w) (handleSuccess w message c)) = JStr []"
proof -
  have te: "timers (handleError w error c) = timers c @ [(ERROR_TIME w, ResetErrorStore)]"
    by (simp add: handleError_def setTimeout_def Let_def)
  have ts: "timers (handleSuccess w message c) = timers c @ [(SUCCESS_TIME w, ResetSuccessStore)]"
    by (simp add: handleSuccess_def setTimeout_def Let_def)
  have ee: "errorStore (elapse (ERROR_TIME w) (handleError w error c)) = JStr []"
    by (rule elapse_errorStore[of "ERROR_TIME w"]) (simp_all add: te)
  have es: "successStore (elapse (SUCCESS_TIME w) (handleSuccess w message c)) = JStr []"
    by (rule elapse_successStore[of "SUCCESS_TIME w"]) (simp_all add: ts)
  have e: "errorStore (handleError w error c) =
     (if isErrorObject w error then
        JStr (''Oops, That didn't work. Pls reload and try again. \<newline>'' @
              js_string (getprop error ''message''))
      else if truthy error \<and> typeof_string error then error
      else if truthy error \<and> typeof_object error then
        JStr (if prettyPrintData w error \<noteq> [] then ''Error: '' @ prettyPrintData w error
              else ''Something went wrong. Pls try again'')
      else if truthy error then error
      else JStr [])"
    by (simp add: handleError_def setTimeout_def Let_def js_or_def)
  have s: "successStore (handleSuccess w message c) =
     (if truthy message \<and> typeof_string message then message
      else if truthy message \<and> typeof_object message then
        JStr (if prettyPrintData w message \<noteq> [] then ''Success: '' @ prettyPrintData w message
              else ''Success'')
      else if truthy message then message
      else JStr [])"
    by (simp add: handleSuccess_def setTimeout_def Let_def js_or_def)
  show ?thesis using te ts ee es e s by blast
qed

text \<open>
  The claim as it was worded fails for the number 42: it is not Error-like, not a
  string and not an object, and \<open>handleError\<close> stores the number itself, which is neither
  the empty string nor a string at all.
\<close>

theorem handleError_number_counterexample:
  "\<not> isErrorObject (example_world service_down) (JNum 42) \<and>
   \<not> typeof_string (JNum 42) \<and> \<not> typeof_object (JNum 42) \<and>
   errorStore (handleError (example_world service_down) (JNum 42) new_controller) = JNum 42 \<and>
   errorStore (handleError (example_world service_down) (JNum 42) new_controller) \<noteq> JStr [] \<and>
   \<not> typeof_string (errorStore (handleError (example_world service_down) (JNum 42) new_controller))"
  by (simp add: handleError_def setTimeout_def Let_def js_or_def example_world_def)

section \<open>Verification: past transactions\<close>

lemma typeof_string_cases: "typeof_string v \<Longrightarrow> \<exists>s. v = JStr s"
  by (cases v) auto

lemma isSelectedTx_fetched:
  assumes "fetchedTx x"
  shows "isSelectedTx w l x = Inr (selectsTx w l x)"
proof -
  have n: "\<not> nullish x" using assms by (simp add: fetchedTx_def)
  have f: "truthy (getprop x ''from'') \<Longrightarrow> \<exists>s. getprop x ''from'' = JStr s"
    using assms typeof_string_cases by (auto simp: fetchedTx_def)
  have t: "truthy (getprop x ''to'') \<Longrightarrow> \<exists>s. getprop x ''to'' = JStr s"
    using assms typeof_string_cases by (auto simp: fetchedTx_def)
  show ?thesis
  proof (cases "truthy (getprop x ''to'') \<and> truthy (getprop x ''from'')")
    case True
    then obtain s1 s2 where "getprop x ''from'' = JStr s1" "getprop x ''to'' = JStr s2"
      using f t by auto
    then show ?thesis using n True by (auto simp: isSelectedTx_def selectsTx_def)
  next
    case False
    then show ?thesis using n by (auto simp: isSelectedTx_def selectsTx_def)
  qed
qed

lemma splitPastTx_fetched:
  assumes "\<forall>x\<in>set xs. fetchedTx x"
  shows "splitPastTx w l xs pastTx pendingTx =
     Inr (pastTx @ map (\<lambda>x. formatPastTx w x (JStr l))
                     (filter (\<lambda>x. selectsTx w l x \<and> getprop x ''status'' = JStr ''confirmed'') xs),
          pendingTx @ filter (\<lambda>x. selectsTx w l x \<and> getprop x ''status'' \<noteq> JStr ''confirmed'') xs)"
  using assms
proof (induction xs arbitrary: pastTx pendingTx)
  case Nil
  then show ?case by simp
next
  case (Cons x xs)
  have s: "isSelectedTx w l x = Inr (selectsTx w l x)"
    using Cons.prems by (simp add: isSelectedTx_fetched)
  have r: "\<forall>x\<in>set xs. fetchedTx x" using Cons.prems by simp
  show ?case by (simp add: s Cons.IH[OF r])
qed

lemma fst_resolveTxStatuses: "fst (resolveTxStatuses w xs c) = map (resolvedTxStatus w) xs"
  by (induction xs arbitrary: c) (simp_all add: Let_def split_beta)

lemma store_log_to [simp]: "store (log_to lvl args c) = store c"
  by (simp add: log_to_def)

lemma store_resolveTxStatuses: "store (snd (resolveTxStatuses w xs c)) = store c"
  by (induction xs arbitrary: c) (simp_all add: Let_def split_beta split: sum.splits)

lemma store_patchPastTx [simp]: "store (patchPastTx w body address c) = store c"
  by (simp add: patchPastTx_def api_request_def split: sum.splits)

lemma fst_finishPendingTx:
  "fst (finishPendingTx w l address pairs pastTx c) =
     pastTx @ map (\<lambda>(element, st). (formatPastTx w element (JStr l))\<lparr>status := st\<rparr>) pairs"
  by (induction w l address pairs pastTx c rule: finishPendingTx.induct) (simp_all add: Let_def)

lemma store_finishPendingTx: "store (snd (finishPendingTx w l address pairs pastTx c)) = store c"
  by (induction w l address pairs pastTx c rule: finishPendingTx.induct) (simp_all add: Let_def)

lemma addressOrSelected_store:
  "store c' = store c \<Longrightarrow> addressOrSelected c' address = addressOrSelected c address"
  by (simp add: addressOrSelected_def getState_def)

lemma fst_updateStore_pastTransactions:
  "getprop (fst (updateStore w [(''pastTransactions'', JArr xs)] address c)) ''pastTransactions'' =
     JArr xs"
  by (simp add: updateStore_def Let_def deepmerge_single)

text \<open>
  Claim C2, as the code has it. For a list of fetched transactions and an address, take the
  following list: first the formatted transactions whose network is the current one,
  whose \<open>to\<close> and \<open>from\<close> are present and one of which is the address in lower case, and
  whose status is \<open>confirmed\<close>; then the other transactions that pass the same test,
  formatted and with their status replaced by the outcome of the lookup on the chain
  (\<open>undefined\<close> when the lookup fails). When none of their nonces is the name of a
  property inherited from \<open>Object.prototype\<close>, \<open>calculatePastTx\<close> returns normally and
  stores under \<open>pastTransactions\<close> of the address's account state the result of
  \<open>cancelTxCalculate\<close> on that list. When one of them is, \<open>cancelTxCalculate\<close> raises,
  \<open>calculatePastTx\<close> is rejected with the TypeError, and the store is not written.
\<close>

theorem calculatePastTx_stores:
  assumes "\<forall>x\<in>set xs. fetchedTx x"
  shows "(let formatted =
            map (\<lambda>x. formatPastTx w x (JStr (toLowerCase a)))
              (filter (\<lambda>x. selectsTx w (toLowerCase a) x \<and> getprop x ''status'' = JStr ''confirmed'') xs) @
            map (\<lambda>x. (formatPastTx w x (JStr (toLowerCase a)))\<lparr>status := resolvedTxStatus w x\<rparr>)
              (filter (\<lambda>x. selectsTx w (toLowerCase a) x \<and> getprop x ''status'' \<noteq> JStr ''confirmed'') xs)
          in ((\<forall>x\<in>set formatted. nonce x \<notin> set Object_prototype_keys) \<longrightarrow>
                (\<exists>finalTx. cancelTxCalculate (formatTime w) (formatDate w) formatted = Inr finalTx \<and>
                   fst (calculatePastTx w (JArr xs) (JStr a) c) = Inr JUndefined \<and>
                   getprop (getprop (getState (snd (calculatePastTx w (JArr xs) (JStr a) c)))
                              (js_string (addressOrSelected c (JStr a)))) ''pastTransactions'' =
                     JArr (map tx_object finalTx))) \<and>
             ((\<exists>x\<in>set formatted. nonce x \<in> set Object_prototype_keys) \<longrightarrow>
                fst (calculatePastTx w (JArr xs) (JStr a) c) = Inl TypeError \<and>
                store (snd (calculatePastTx w (JArr xs) (JStr a) c)) = store c))"
proof -
  let ?l = "toLowerCase a"
  let ?conf = "filter (\<lambda>x. selectsTx w ?l x \<and> getprop x ''status'' = JStr ''confirmed'') xs"
  let ?pend = "filter (\<lambda>x. selectsTx w ?l x \<and> getprop x ''status'' \<noteq> JStr ''confirmed'') xs"
  let ?past = "map (\<lambda>x. formatPastTx w x (JStr ?l)) ?conf"
  let ?c1 = "snd (resolveTxStatuses w ?pend c)"
  let ?pairs = "zip ?pend (map (resolvedTxStatus w) ?pend)"
  let ?c2 = "snd (finishPendingTx w ?l (JStr a) ?pairs ?past ?c1)"
  let ?past2 = "?past @ map (\<lambda>x. (formatPastTx w x (JStr ?l))\<lparr>status := resolvedTxStatus w x\<rparr>) ?pend"
  have sp: "splitPastTx w ?l xs [] [] = Inr (?past, ?pend)"
    using splitPastTx_fetched[OF assms, of w ?l "[]" "[]"] by simp
  have z: "?pairs = map (\<lambda>x. (x, resolvedTxStatus w x)) ?pend"
    by (simp add: zip_map2 zip_same_conv_map)
  have fp: "fst (finishPendingTx w ?l (JStr a) ?pairs ?past ?c1) = ?past2"
    unfolding fst_finishPendingTx z by (simp add: comp_def)
  have calc: "calculatePastTx w (JArr xs) (JStr a) c =
      (case cancelTxCalculate (formatTime w) (formatDate w) ?past2 of
         Inl error \<Rightarrow> (Inl error, ?c2)
       | Inr finalTx \<Rightarrow>
           (Inr JUndefined,
            snd (updateStore w [(''pastTransactions'', JArr (map tx_object finalTx))] (JStr a) ?c2)))"
    using fp by (simp add: calculatePastTx_def sp Let_def split_beta fst_resolveTxStatuses
        cong: sum.case_cong)
  have st: "store ?c2 = store c"
    by (simp add: store_finishPendingTx store_resolveTxStatuses)
  have key: "addressOrSelected ?c2 (JStr a) = addressOrSelected c (JStr a)"
    using st by (rule addressOrSelected_store)
  have ok: "\<exists>finalTx. cancelTxCalculate (formatTime w) (formatDate w) ?past2 = Inr finalTx \<and>
        fst (calculatePastTx w (JArr xs) (JStr a) c) = Inr JUndefined \<and>
        getprop (getprop (getState (snd (calculatePastTx w (JArr xs) (JStr a) c)))
                   (js_string (addressOrSelected c (JStr a)))) ''pastTransactions'' =
          JArr (map tx_object finalTx)"
    if plain: "\<forall>x\<in>set ?past2. nonce x \<notin> set Object_prototype_keys"
  proof -
    obtain finalTx where f: "cancelTxCalculate (formatTime w) (formatDate w) ?past2 = Inr finalTx"
      using plain by (simp add: cancelTxCalculate_result)
    let ?u = "updateStore w [(''pastTransactions'', JArr (map tx_object finalTx))] (JStr a) ?c2"
    have c: "calculatePastTx w (JArr xs) (JStr a) c = (Inr JUndefined, snd ?u)"
      unfolding calc f by simp
    have "getprop (getState (snd ?u)) (js_string (addressOrSelected c (JStr a))) = fst ?u"
      using getState_updateStore[of w _ "JStr a" ?c2] key by simp
    then show ?thesis
      using f unfolding c by (simp add: fst_updateStore_pastTransactions)
  qed
  have bad: "fst (calculatePastTx w (JArr xs) (JStr a) c) = Inl TypeError \<and>
        store (snd (calculatePastTx w (JArr xs) (JStr a) c)) = store c"
    if inh: "\<exists>x\<in>set ?past2. nonce x \<in> set Object_prototype_keys"
  proof -
    have "cancelTxCalculate (formatTime w) (formatDate w) ?past2 = Inl TypeError"
      using inh by (simp only: cancelTxCalculate_result if_True)
    then show ?thesis unfolding calc using st by simp
  qed
  show ?thesis unfolding Let_def using ok bad by blast
qed

lemma toLowerCase_example: "toLowerCase ''0xA'' = ''0xa''" "toLowerCase ''0xa'' = ''0xa''"
  "toLowerCase ''0xc'' = ''0xc''" "toLowerCase ''0xd'' = ''0xd''" "toLowerCase ''0xe'' = ''0xe''"
  by code_simp+

lemmas fetched_defs = fetched_pending_def fetched_confirmed_def fetched_other_network_def
  fetched_other_account_def example_raw_tx_def

text \<open>
  The theorem at \<open>example_txs\<close> for the address \<open>0xa\<close>: the confirmed transaction comes
  first, the pending one follows with the status found on the chain, and the two
  transactions of the other network and the other account are left out.
\<close>

theorem calculatePastTx_stores_witness:
  "\<exists>finalTx.
     cancelTxCalculate (\<lambda>t. ''12:00'') (\<lambda>t. ''1 Jan'')
       [example_formatPastTx fetched_confirmed (JStr ''0xa''),
        (example_formatPastTx fetched_pending (JStr ''0xa''))\<lparr>status := JStr ''confirmed''\<rparr>] =
       Inr finalTx \<and>
     fst (calculatePastTx (example_world service_ok) (JArr example_txs) (JStr ''0xa'')
            example_controller) = Inr JUndefined \<and>
     getprop (getprop (getState (snd (calculatePastTx (example_world service_ok) (JArr example_txs)
         (JStr ''0xa'') example_controller))) ''0xa'') ''pastTransactions'' =
       JArr (map tx_object finalTx)"
proof -
  let ?w = "example_world service_ok"
  have h: "\<forall>x\<in>set example_txs. fetchedTx x"
    by (simp add: example_txs_def fetched_defs fetchedTx_def)
  have k: "js_string (addressOrSelected example_controller (JStr ''0xa'')) = ''0xa''"
    by (simp add: addressOrSelected_def js_or_def)
  have sel: "selectsTx ?w ''0xa'' fetched_pending" "selectsTx ?w ''0xa'' fetched_confirmed"
    "\<not> selectsTx ?w ''0xa'' fetched_other_network" "\<not> selectsTx ?w ''0xa'' fetched_other_account"
    by (simp_all add: selectsTx_def fetched_defs example_world_def strict_eq_def toLowerCase_example)
  have st: "getprop fetched_pending ''status'' = JStr ''submitted''"
    "getprop fetched_confirmed ''status'' = JStr ''confirmed''"
    by (simp_all add: fetched_defs)
  have r: "resolvedTxStatus ?w fetched_pending = JStr ''confirmed''"
    by (simp add: resolvedTxStatus_def example_world_def)
  have w: "formatPastTx ?w = example_formatPastTx" "formatTime ?w = (\<lambda>t. ''12:00'')"
    "formatDate ?w = (\<lambda>t. ''1 Jan'')"
    by (simp_all add: example_world_def)
  have f1: "filter (\<lambda>x. selectsTx ?w ''0xa'' x \<and> getprop x ''status'' = JStr ''confirmed'') example_txs =
      [fetched_confirmed]"
    by (simp add: example_txs_def sel st)
  have f2: "filter (\<lambda>x. selectsTx ?w ''0xa'' x \<and> getprop x ''status'' \<noteq> JStr ''confirmed'') example_txs =
      [fetched_pending]"
    by (simp add: example_txs_def sel st)
  have n: "nonce (example_formatPastTx fetched_confirmed (JStr ''0xa'')) = []"
    "nonce (example_formatPastTx fetched_pending (JStr ''0xa'')) = []"
    by (simp_all add: example_formatPastTx_def fetched_defs js_or_def)
  have e: "[] \<notin> set Object_prototype_keys" by (simp add: Object_prototype_keys_def)
  note t = calculatePastTx_stores[OF h, of ?w "''0xa''" example_controller,
      unfolded Let_def k toLowerCase_example w f1 f2, THEN conjunct1]
  show ?thesis
    using t n e by (simp add: r)
qed

text \<open>
  One fetched transaction of \<open>0xa\<close>, confirmed, with the nonce \<open>constructor\<close>: it passes
  the test and is formatted, but it is not stored; \<open>calculatePastTx\<close> is rejected and
  \<open>pastTransactions\<close> is what it was.
\<close>

theorem calculatePastTx_inherited_nonce_counterexample:
  "fst (calculatePastTx (example_world service_ok) (JArr [fetched_inherited_nonce]) (JStr ''0xa'')
          example_controller) = Inl TypeError \<and>
   getprop (getprop (getState (snd (calculatePastTx (example_world service_ok)
       (JArr [fetched_inherited_nonce]) (JStr ''0xa'') example_controller))) ''0xa'')
     ''pastTransactions'' = JArr []"
  by code_simp

section \<open>Verification: failures of the non-critical fetches\<close>

lemma logs_log_to [simp]: "logs (log_to lvl args c) = logs c @ [(lvl, args)]"
  by (simp add: log_to_def)

lemma logs_updateStore [simp]: "logs (snd (updateStore w p address c)) = logs c"
  by (simp add: updateStore_def Let_def)

lemma logs_patchPastTx: "set (logs c) \<subseteq> set (logs (patchPastTx w body address c))"
  by (auto simp: patchPastTx_def api_request_def split: sum.splits)

lemma logs_resolveTxStatuses: "set (logs c) \<subseteq> set (logs (snd (resolveTxStatuses w xs c)))"
proof (induction xs arbitrary: c)
  case Nil
  then show ?case by simp
next
  case (Cons x xs)
  show ?case
  proof (cases "getEthTxStatus w (getprop x ''transaction_hash'')")
    case (Inl error)
    then show ?thesis using Cons.IH[of "log_to LogError [Exn error] c"]
      by (auto simp: Let_def split_beta)
  next
    case (Inr st)
    then show ?thesis using Cons.IH[of c] by (auto simp: Let_def split_beta)
  qed
qed

lemma logs_finishPendingTx:
  "set (logs c) \<subseteq> set (logs (snd (finishPendingTx w l address pairs pastTx c)))"
proof (induction w l address pairs pastTx c rule: finishPendingTx.induct)
  case (1 w l address pastTx c)
  then show ?case by simp
next
  case (2 w l address element st rest pastTx c)
  let ?final = "(formatPastTx w element (JStr l))\<lparr>status := st\<rparr>"
  let ?c1 = "if call_toLowerCase (getprop element ''from'') = Inr l \<and> truthy (status ?final)
                \<and> \<not> strict_eq (status ?final) (getprop element ''status'')
             then patchPastTx w (JObj [(''id'', getprop element ''id''), (''status'', status ?final)])
                    address c
             else c"
  have a: "set (logs c) \<subseteq> set (logs ?c1)" using logs_patchPastTx by simp
  have b: "set (logs ?c1) \<subseteq>
      set (logs (snd (finishPendingTx w l address rest (pastTx @ [?final]) ?c1)))"
    by (rule "2.IH") simp_all
  have e: "finishPendingTx w l address ((element, st) # rest) pastTx c =
      finishPendingTx w l address rest (pastTx @ [?final]) ?c1"
    by (simp add: Let_def)
  show ?case unfolding e using a b by (rule subset_trans)
qed

lemma logs_calculatePastTx:
  "set (logs c) \<subseteq> set (logs (snd (calculatePastTx w txs address c)))"
proof (cases "call_toLowerCase address")
  case (Inl error)
  then show ?thesis by (simp add: calculatePastTx_def)
next
  case l: (Inr lower)
  show ?thesis
  proof (cases "iterate txs")
    case (Inl error)
    then show ?thesis using l by (simp add: calculatePastTx_def)
  next
    case xs: (Inr xs)
    show ?thesis
    proof (cases "splitPastTx w lower xs [] []")
      case (Inl error)
      then show ?thesis using l xs by (simp add: calculatePastTx_def)
    next
      case (Inr split)
      obtain pastTx pendingTx where sp: "split = (pastTx, pendingTx)" by (cases split)
      let ?c1 = "snd (resolveTxStatuses w pendingTx c)"
      let ?sts = "fst (resolveTxStatuses w pendingTx c)"
      let ?c2 = "snd (finishPendingTx w lower address (zip pendingTx ?sts) pastTx ?c1)"
      have "set (logs c) \<subseteq> set (logs ?c1)" by (rule logs_resolveTxStatuses)
      also have "\<dots> \<subseteq> set (logs ?c2)" by (rule logs_finishPendingTx)
      finally have "set (logs c) \<subseteq> set (logs ?c2)" .
      then show ?thesis using l xs Inr sp
        by (simp add: calculatePastTx_def Let_def split_beta split: sum.splits)
    qed
  qed
qed

lemma logs_calculatePaymentTx [simp]:
  "logs (snd (calculatePaymentTx w txs address c)) = logs c"
  by (simp add: calculatePaymentTx_def Let_def split_beta split: sum.splits)

lemma logs_ordersFetched:
  "set (logs c) \<subseteq> set (logs (snd (ordersFetched w address walletTx paymentTx c)))"
proof -
  let ?p = "if truthy (getprop_opt paymentTx ''data'')
            then calculatePaymentTx w (getprop paymentTx ''data'') address c
            else (Inr JUndefined, c)"
  have l1: "logs (snd ?p) = logs c" by simp
  show ?thesis
  proof (cases "fst ?p")
    case (Inl error)
    then have "ordersFetched w address walletTx paymentTx c = (Inl error, snd ?p)"
      by (simp add: ordersFetched_def split_beta split: prod.splits)
    then show ?thesis using l1 by simp
  next
    case (Inr finished)
    show ?thesis
    proof (cases "truthy (getprop_opt walletTx ''data'')")
      case False
      then have "ordersFetched w address walletTx paymentTx c = (Inr JUndefined, snd ?p)"
        using Inr by (simp add: ordersFetched_def split_beta split: prod.splits)
      then show ?thesis using l1 by simp
    next
      case True
      let ?c2 = "snd (updateStore w [(''fetchedPastTx'', getprop walletTx ''data'')] address (snd ?p))"
      have "ordersFetched w address walletTx paymentTx c =
          (Inr JUndefined, snd (calculatePastTx w (getprop walletTx ''data'') address ?c2))"
        using Inr True by (simp add: ordersFetched_def Let_def split_beta split: prod.splits)
      moreover have "set (logs ?c2) \<subseteq>
          set (logs (snd (calculatePastTx w (getprop walletTx ''data'') address ?c2)))"
        by (rule logs_calculatePastTx)
      moreover have "logs ?c2 = logs c" using l1 by simp
      ultimately show ?thesis by simp
    qed
  qed
qed

lemma updateStore_respond [simp]:
  "updateStore (w\<lparr>respond := f\<rparr>) p address c = updateStore w p address c"
  by (simp add: updateStore_def DEFAULT_ACCOUNT_STATE_def)

lemma whiteLabelLocale_respond [simp]:
  "whiteLabelLocale (w\<lparr>respond := f\<rparr>) c = whiteLabelLocale w c"
  by (simp add: whiteLabelLocale_def)

lemma sync_try_respond:
  assumes "\<forall>u h. f (ApiGet u h) = respond w (ApiGet u h)"
  shows "sync_try (w\<lparr>respond := f\<rparr>) address c = sync_try w address c"
  using assms
  by (simp add: sync_try_def api_request_def Let_def
      cong: sum.case_cong prod.case_cong jsval.case_cong if_cong)

lemma fst_sync: "fst (sync w address c) =
    (case fst (sync_try w address c) of Inl error \<Rightarrow> Inr JUndefined | Inr user \<Rightarrow> Inr user)"
  by (simp add: sync_def Let_def split_beta split: prod.splits sum.splits)

lemma snd_sync: "snd (sync w address c) =
    sync_finally w address
      (case fst (sync_try w address c) of
         Inl error \<Rightarrow> log_to LogWarn [Exn error] (snd (sync_try w address c))
       | Inr user \<Rightarrow> snd (sync_try w address c))"
  by (simp add: sync_def Let_def split_beta split: prod.splits sum.splits)

lemma logs_sync_finally:
  "set (logs (snd (caughtOrders ''unable to fetch past orders''
        (respond w (GetPastOrders (headers c address)))
        (snd (caughtOrders ''unable to fetch wallet orders''
           (respond w (GetWalletOrders (headers c address)))
           (c\<lparr>calls := calls c @ [GetWalletOrders (headers c address),
                                   GetPastOrders (headers c address)]\<rparr>))))))
   \<subseteq> set (logs (sync_finally w address c))"
proof -
  let ?h = "headers c address"
  let ?c2 = "c\<lparr>calls := calls c @ [GetWalletOrders ?h, GetPastOrders ?h]\<rparr>"
  let ?w = "caughtOrders ''unable to fetch wallet orders'' (respond w (GetWalletOrders ?h)) ?c2"
  let ?p = "caughtOrders ''unable to fetch past orders'' (respond w (GetPastOrders ?h)) (snd ?w)"
  let ?o = "ordersFetched w address (fst ?w) (fst ?p) (snd ?p)"
  have f: "sync_finally w address c =
      (case fst ?o of Inl error \<Rightarrow> log_to LogError [Exn error] (snd ?o) | Inr finished \<Rightarrow> snd ?o)"
    by (simp add: sync_finally_def Let_def split_beta api_request_def
        cong: sum.case_cong split: prod.splits)
  have "set (logs (snd ?p)) \<subseteq> set (logs (snd ?o))" by (rule logs_ordersFetched)
  moreover have "set (logs (snd ?o)) \<subseteq> set (logs (sync_finally w address c))"
    unfolding f by (cases "fst ?o") auto
  ultimately show ?thesis by (rule subset_trans)
qed

lemma sync_finally_logs_wallet:
  assumes "\<forall>h. respond w (GetWalletOrders h) = Inl e"
  shows "(LogError, [Msg ''unable to fetch wallet orders'', Exn e]) \<in> set (logs (sync_finally w address c))"
proof -
  have "(LogError, [Msg ''unable to fetch wallet orders'', Exn e]) \<in>
    set (logs (snd (caughtOrders ''unable to fetch past orders''
        (respond w (GetPastOrders (headers c address)))
        (snd (caughtOrders ''unable to fetch wallet orders''
           (respond w (GetWalletOrders (headers c address)))
           (c\<lparr>calls := calls c @ [GetWalletOrders (headers c address),
                                   GetPastOrders (headers c address)]\<rparr>))))))"
    using assms by (simp add: caughtOrders_def split: sum.splits)
  then show ?thesis using logs_sync_finally by blast
qed

lemma sync_finally_logs_payment:
  assumes "\<forall>h. respond w (GetPastOrders h) = Inl e"
  shows "(LogError, [Msg ''unable to fetch past orders'', Exn e]) \<in> set (logs (sync_finally w address c))"
proof -
  have "(LogError, [Msg ''unable to fetch past orders'', Exn e]) \<in>
    set (logs (snd (caughtOrders ''unable to fetch past orders''
        (respond w (GetPastOrders (headers c address)))
        (snd (caughtOrders ''unable to fetch wallet orders''
           (respond w (GetWalletOrders (headers c address)))
           (c\<lparr>calls := calls c @ [GetWalletOrders (headers c address),
                                   GetPastOrders (headers c address)]\<rparr>))))))"
    using assms by (simp add: caughtOrders_def split: sum.splits)
  then show ?thesis using logs_sync_finally by blast
qed

lemma sync_try_withOrderOutcomes:
  "sync_try (withOrderOutcomes w walletOutcome paymentOutcome) address c = sync_try w address c"
  unfolding withOrderOutcomes_def by (rule sync_try_respond) simp

lemma getAnnouncementsContents_returns:
  "fst (getAnnouncementsContents w c) = Inr JUndefined"
proof -
  have "fst (announcements_try w c) = Inr v \<Longrightarrow> v = JUndefined" for v
    by (auto simp: announcements_try_def api_request_def
        split: if_splits sum.splits jsval.splits prod.splits)
  then show ?thesis
    by (cases "announcements_try w c") (auto simp: getAnnouncementsContents_def split: sum.splits)
qed

lemma getAnnouncementsContents_fetch_fails:
  assumes "truthy (getprop (getState c) ''selectedAddress'')"
    and "respond w (ApiGet (api w @ ''/announcements'') (Some (headers c JUndefined))) = Inl e"
  shows "announcementsStore (snd (getAnnouncementsContents w c)) = announcementsStore c"
    and "logs (snd (getAnnouncementsContents w c)) = logs c @ [(LogError, [Exn e])]"
  using assms
  by (simp_all add: getAnnouncementsContents_def announcements_try_def api_request_def log_to_def)

text \<open>
  Claim C5. \<open>sync\<close> always returns a value; no exception leaves it. What it returns does
  not depend on the outcomes of the two order fetches. When the wallet-orders fetch or
  the past-orders fetch fails, the failure is logged as an error under its own message.
  \<open>getAnnouncementsContents\<close> always returns a value too; when its fetch fails, the failure
  is logged and the announcements store keeps its state.
\<close>

theorem noncritical_fetch_failures:
  "(\<exists>v. fst (sync w address c) = Inr v) \<and>
   fst (sync (withOrderOutcomes w walletOutcome paymentOutcome) address c) = fst (sync w address c) \<and>
   ((\<forall>h. respond w (GetWalletOrders h) = Inl e1) \<longrightarrow>
      (LogError, [Msg ''unable to fetch wallet orders'', Exn e1]) \<in> set (logs (snd (sync w address c)))) \<and>
   ((\<forall>h. respond w (GetPastOrders h) = Inl e2) \<longrightarrow>
      (LogError, [Msg ''unable to fetch past orders'', Exn e2]) \<in> set (logs (snd (sync w address c)))) \<and>
   (\<exists>v. fst (getAnnouncementsContents w c) = Inr v) \<and>
   (truthy (getprop (getState c) ''selectedAddress'') \<and>
    respond w (ApiGet (api w @ ''/announcements'') (Some (headers c JUndefined))) = Inl e3 \<longrightarrow>
      announcementsStore (snd (getAnnouncementsContents w c)) = announcementsStore c \<and>
      logs (snd (getAnnouncementsContents w c)) = logs c @ [(LogError, [Exn e3])])"
proof (intro conjI impI)
  show "\<exists>v. fst (sync w address c) = Inr v"
    by (simp add: fst_sync split: sum.splits)
  show "fst (sync (withOrderOutcomes w walletOutcome paymentOutcome) address c) = fst (sync w address c)"
    by (simp add: fst_sync sync_try_withOrderOutcomes)
  show "(LogError, [Msg ''unable to fetch wallet orders'', Exn e1]) \<in> set (logs (snd (sync w address c)))"
    if "\<forall>h. respond w (GetWalletOrders h) = Inl e1"
    unfolding snd_sync using that by (rule sync_finally_logs_wallet)
  show "(LogError, [Msg ''unable to fetch past orders'', Exn e2]) \<in> set (logs (snd (sync w address c)))"
    if "\<forall>h. respond w (GetPastOrders h) = Inl e2"
    unfolding snd_sync using that by (rule sync_finally_logs_payment)
  show "\<exists>v. fst (getAnnouncementsContents w c) = Inr v"
    by (simp add: getAnnouncementsContents_returns)
next
  assume a: "truthy (getprop (getState c) ''selectedAddress'') \<and>
    respond w (ApiGet (api w @ ''/announcements'') (Some (headers c JUndefined))) = Inl e3"
  show "announcementsStore (snd (getAnnouncementsContents w c)) = announcementsStore c"
    using a getAnnouncementsContents_fetch_fails(1) by blast
  show "logs (snd (getAnnouncementsContents w c)) = logs c @ [(LogError, [Exn e3])]"
    using a getAnnouncementsContents_fetch_fails(2) by blast
qed

text \<open>
  The theorem at \<open>example_controller\<close> with the account service down: both order failures
  are in the log after \<open>sync\<close>, and \<open>getAnnouncementsContents\<close> logs its failure and leaves
  the empty announcements store as it is.
\<close>

theorem noncritical_fetch_failures_witness:
  "(LogError, [Msg ''unable to fetch wallet orders'', Exn (Rejected (JStr ''503''))])
     \<in> set (logs (snd (sync (example_world service_down) (JStr ''0xa'') example_controller))) \<and>
   (LogError, [Msg ''unable to fetch past orders'', Exn (Rejected (JStr ''503''))])
     \<in> set (logs (snd (sync (example_world service_down) (JStr ''0xa'') example_controller))) \<and>
   announcementsStore (snd (getAnnouncementsContents (example_world service_down) example_controller)) =
     JObj [] \<and>
   logs (snd (getAnnouncementsContents (example_world service_down) example_controller)) =
     [(LogError, [Exn (Rejected (JStr ''503''))])]"
proof -
  let ?w = "example_world service_down"
  let ?e = "Rejected (JStr ''503'')"
  have h1: "\<forall>h. respond ?w (GetWalletOrders h) = Inl ?e"
    and h2: "\<forall>h. respond ?w (GetPastOrders h) = Inl ?e"
    and h3: "respond ?w (ApiGet (api ?w @ ''/announcements'') (Some (headers example_controller JUndefined))) = Inl ?e"
    by (simp_all add: example_world_def service_down_def)
  have s: "truthy (getprop (getState example_controller) ''selectedAddress'')"
    by (simp add: getState_def example_controller_def new_controller_def)
  have c: "announcementsStore example_controller = JObj []" "logs example_controller = []"
    by (simp_all add: example_controller_def new_controller_def)
  note t = noncritical_fetch_failures[of ?w "JStr ''0xa''" example_controller
      "Inl ?e" "Inl ?e" ?e ?e ?e]
  show ?thesis using t h1 h2 h3 s c by simp
qed

section \<open>Verification: theme, NFTs and \<open>init\<close>\<close>

lemma store_handleSuccess [simp]: "store (handleSuccess w m c) = store c"
  by (simp add: handleSuccess_def setTimeout_def Let_def)

lemma store_handleError [simp]: "store (handleError w e c) = store c"
  by (simp add: handleError_def setTimeout_def Let_def)

lemma successStore_updateStore [simp]:
  "successStore (snd (updateStore w p address c)) = successStore c"
  by (simp add: updateStore_def Let_def)

lemma calls_updateStore [simp]: "calls (snd (updateStore w p address c)) = calls c"
  by (simp add: updateStore_def Let_def)

lemma calls_handleSuccess [simp]: "calls (handleSuccess w m c) = calls c"
  by (simp add: handleSuccess_def setTimeout_def Let_def)

lemma calls_handleError [simp]: "calls (handleError w e c) = calls c"
  by (simp add: handleError_def setTimeout_def Let_def)

lemma successStore_handleSuccess_string:
  "s \<noteq> [] \<Longrightarrow> successStore (handleSuccess w (JStr s) c) = JStr s"
  by (simp add: handleSuccess_def setTimeout_def Let_def)

lemma errorStore_handleError_string:
  "s \<noteq> [] \<Longrightarrow> errorStore (handleError w (JStr s) c) =
     (if isErrorObject w (JStr s)
      then JStr (''Oops, That didn't work. Pls reload and try again. \<newline>undefined'')
      else JStr s)"
  by (simp add: handleError_def setTimeout_def Let_def)

lemma theme_after_update:
  "\<forall>kvs. payload \<noteq> JObj kvs \<Longrightarrow>
   getprop (fst (updateStore w [(''theme'', payload)] address c)) ''theme'' = payload"
  by (simp add: updateStore_def Let_def deepmerge_single)

lemma example_controller_selected:
  "addressOrSelected example_controller JUndefined = JStr ''0xa''"
  "state example_controller JUndefined = state example_controller (JStr ''0xa'')"
  "getprop (state example_controller (JStr ''0xa'')) ''theme'' = JStr ''dark''"
  "getprop (state example_controller (JStr ''0xa'')) ''jwtToken'' = JStr ''token-a''"
  "getprop (state example_controller (JStr ''0xa'')) ''defaultPublicAddress'' = JStr []"
  "getprop (state example_controller (JStr ''0xb'')) ''jwtToken'' = JStr []"
  "getprop (state example_controller (JStr ''0xb'')) ''defaultPublicAddress'' = JStr ''0xb0''"
  "truthy (state example_controller (JStr ''0xa''))"
  "truthy (state example_controller (JStr ''0xb''))"
  "\<not> nullish (state example_controller (JStr ''0xa''))"
  "\<not> nullish (state example_controller (JStr ''0xb''))"
  by (simp_all add: state_def addressOrSelected_def getState_def example_controller_def
      new_controller_def js_or_def)

text \<open>
  Claim C4. When the payload is the theme stored for the selected address,
  \<open>setUserTheme\<close> returns at once: no call is made and the controller is unchanged.
  Otherwise it makes exactly one call, the PATCH of the theme. When that call succeeds,
  the theme stored for the selected address is the payload (a theme is a name; a plain
  object would be merged into the stored theme), the success store holds the success
  message and the error store is untouched. When the call fails, the store is
  unchanged and the error store holds the failure message, as \<open>handleError\<close> writes it.
\<close>

theorem setUserTheme_outcomes:
  "(strict_eq payload (getprop_opt (state c JUndefined) ''theme'') \<longrightarrow>
      setUserTheme w payload c = (Inr JUndefined, c)) \<and>
   (\<not> strict_eq payload (getprop_opt (state c JUndefined) ''theme'') \<longrightarrow>
      fst (setUserTheme w payload c) = Inr JUndefined \<and>
      calls (snd (setUserTheme w payload c)) =
        calls c @ [ApiPatch (api w @ ''/user/theme'') (JObj [(''theme'', payload)])
                     (Some (headers c JUndefined))]) \<and>
   (\<not> strict_eq payload (getprop_opt (state c JUndefined) ''theme'') \<and>
    respond w (ApiPatch (api w @ ''/user/theme'') (JObj [(''theme'', payload)])
                 (Some (headers c JUndefined))) = Inr response \<longrightarrow>
      ((\<forall>kvs. payload \<noteq> JObj kvs) \<longrightarrow>
         getprop (getprop (getState (snd (setUserTheme w payload c)))
                    (js_string (addressOrSelected c JUndefined))) ''theme'' = payload) \<and>
      successStore (snd (setUserTheme w payload c)) = JStr ''navBar.snackSuccessTheme'' \<and>
      errorStore (snd (setUserTheme w payload c)) = errorStore c) \<and>
   (\<not> strict_eq payload (getprop_opt (state c JUndefined) ''theme'') \<and>
    respond w (ApiPatch (api w @ ''/user/theme'') (JObj [(''theme'', payload)])
                 (Some (headers c JUndefined))) = Inl error \<longrightarrow>
      store (snd (setUserTheme w payload c)) = store c \<and>
      errorStore (snd (setUserTheme w payload c)) =
        (if isErrorObject w (JStr ''navBar.snackFailTheme'')
         then JStr ''Oops, That didn't work. Pls reload and try again. \<newline>undefined''
         else JStr ''navBar.snackFailTheme'') \<and>
      successStore (snd (setUserTheme w payload c)) = successStore c)"
proof (intro conjI impI)
  let ?req = "ApiPatch (api w @ ''/user/theme'') (JObj [(''theme'', payload)])
                (Some (headers c JUndefined))"
  let ?c1 = "c\<lparr>calls := calls c @ [?req]\<rparr>"
  show "setUserTheme w payload c = (Inr JUndefined, c)"
    if "strict_eq payload (getprop_opt (state c JUndefined) ''theme'')"
    using that by (simp add: setUserTheme_def)
  have ok: "setUserTheme w payload c =
      (Inr JUndefined, snd (updateStore w [(''theme'', payload)] JUndefined
         (handleSuccess w (JStr ''navBar.snackSuccessTheme'') ?c1)))"
    if "\<not> strict_eq payload (getprop_opt (state c JUndefined) ''theme'')"
      and "respond w ?req = Inr response" for response
    using that by (simp add: setUserTheme_def api_request_def Let_def split_beta)
  have bad: "setUserTheme w payload c =
      (Inr JUndefined, handleError w (JStr ''navBar.snackFailTheme'')
         (log_to LogError [Exn error] ?c1))"
    if "\<not> strict_eq payload (getprop_opt (state c JUndefined) ''theme'')"
      and "respond w ?req = Inl error" for error
    using that by (simp add: setUserTheme_def api_request_def Let_def)
  {
    assume n: "\<not> strict_eq payload (getprop_opt (state c JUndefined) ''theme'')"
    show "fst (setUserTheme w payload c) = Inr JUndefined"
      using ok[OF n] bad[OF n] by (cases "respond w ?req") simp_all
    show "calls (snd (setUserTheme w payload c)) = calls c @ [?req]"
      using ok[OF n] bad[OF n] by (cases "respond w ?req") (simp_all add: log_to_def)
  }
  {
    assume a: "\<not> strict_eq payload (getprop_opt (state c JUndefined) ''theme'') \<and>
      respond w ?req = Inr response"
    let ?c2 = "handleSuccess w (JStr ''navBar.snackSuccessTheme'') ?c1"
    have e: "setUserTheme w payload c =
      (Inr JUndefined, snd (updateStore w [(''theme'', payload)] JUndefined ?c2))"
      using a ok by blast
    have k: "addressOrSelected ?c2 JUndefined = addressOrSelected c JUndefined"
      by (simp add: addressOrSelected_def getState_def)
    show "successStore (snd (setUserTheme w payload c)) = JStr ''navBar.snackSuccessTheme''"
      unfolding e by (simp add: successStore_handleSuccess_string)
    show "errorStore (snd (setUserTheme w payload c)) = errorStore c"
      unfolding e by (simp add: updateStore_def handleSuccess_def setTimeout_def Let_def)
    show "getprop (getprop (getState (snd (setUserTheme w payload c)))
                    (js_string (addressOrSelected c JUndefined))) ''theme'' = payload"
      if "\<forall>kvs. payload \<noteq> JObj kvs"
    proof -
      have "getprop (getState (snd (updateStore w [(''theme'', payload)] JUndefined ?c2)))
                (js_string (addressOrSelected c JUndefined)) =
            fst (updateStore w [(''theme'', payload)] JUndefined ?c2)"
        using getState_updateStore[of w "[(''theme'', payload)]" JUndefined ?c2] k by simp
      moreover have "getprop (fst (updateStore w [(''theme'', payload)] JUndefined ?c2)) ''theme'' = payload"
        using that by (rule theme_after_update)
      ultimately show ?thesis unfolding e by simp
    qed
  }
  {
    assume a: "\<not> strict_eq payload (getprop_opt (state c JUndefined) ''theme'') \<and>
      respond w ?req = Inl error"
    have e: "setUserTheme w payload c =
      (Inr JUndefined, handleError w (JStr ''navBar.snackFailTheme'')
         (log_to LogError [Exn error] ?c1))"
      using a bad by blast
    show "store (snd (setUserTheme w payload c)) = store c"
      unfolding e by simp
    show "errorStore (snd (setUserTheme w payload c)) =
        (if isErrorObject w (JStr ''navBar.snackFailTheme'')
         then JStr ''Oops, That didn't work. Pls reload and try again. \<newline>undefined''
         else JStr ''navBar.snackFailTheme'')"
      unfolding e by (simp add: errorStore_handleError_string)
    show "successStore (snd (setUserTheme w payload c)) = successStore c"
      unfolding e by (simp add: handleError_def setTimeout_def Let_def log_to_def)
  }
qed

text \<open>
  The theorem at \<open>example_controller\<close>, whose selected account has the theme \<open>dark\<close>: the
  same theme changes nothing; \<open>light\<close> is stored when the service answers, and is not
  when the service is down.
\<close>

theorem setUserTheme_outcomes_witness:
  "setUserTheme (example_world service_ok) (JStr ''dark'') example_controller =
     (Inr JUndefined, example_controller) \<and>
   getprop (getprop (getState (snd (setUserTheme (example_world service_ok) (JStr ''light'')
       example_controller))) ''0xa'') ''theme'' = JStr ''light'' \<and>
   successStore (snd (setUserTheme (example_world service_ok) (JStr ''light'') example_controller)) =
     JStr ''navBar.snackSuccessTheme'' \<and>
   store (snd (setUserTheme (example_world service_down) (JStr ''light'') example_controller)) =
     store example_controller \<and>
   errorStore (snd (setUserTheme (example_world service_down) (JStr ''light'') example_controller)) =
     JStr ''navBar.snackFailTheme''"
proof -
  have cur: "getprop_opt (state example_controller JUndefined) ''theme'' = JStr ''dark''"
    using example_controller_selected by (simp add: getprop_opt_def)
  have same: "strict_eq (JStr ''dark'') (getprop_opt (state example_controller JUndefined) ''theme'')"
    and diff: "\<not> strict_eq (JStr ''light'') (getprop_opt (state example_controller JUndefined) ''theme'')"
    unfolding cur by (simp_all add: strict_eq_def)
  have up: "respond (example_world service_ok) call = Inr (JObj [])"
    and down: "respond (example_world service_down) call = Inl (Rejected (JStr ''503''))" for call
    by (simp_all add: example_world_def service_ok_def service_down_def)
  have ne: "\<not> isErrorObject (example_world service_down) (JStr ''navBar.snackFailTheme'')"
    by (simp add: example_world_def)
  have k: "js_string (addressOrSelected example_controller JUndefined) = ''0xa''"
    using example_controller_selected by simp
  note a = setUserTheme_outcomes[of "JStr ''dark''" example_controller "example_world service_ok"]
  note b = setUserTheme_outcomes[of "JStr ''light''" example_controller "example_world service_ok"
      "JObj []"]
  note d = setUserTheme_outcomes[of "JStr ''light''" example_controller "example_world service_down"
      _ "Rejected (JStr ''503'')"]
  show ?thesis using a b d same diff up down ne k by simp
qed

text \<open>
  Claim C10. When the account state that \<open>state(userAddress)\<close> finds has no \<open>jwtToken\<close> or
  an empty one, and in particular when there is no account state, \<open>getNfts\<close> returns
  \<open>{ data: [] }\<close> and makes no call. When a non-empty token is stored, it makes the one
  NFT request and returns what the account service answers.
\<close>

theorem getNfts_token_guard:
  "(\<not> truthy (getprop_opt (state c userAddress) ''jwtToken'') \<longrightarrow>
      getNfts w userAddress network c = (Inr (JObj [(''data'', JArr [])]), c)) \<and>
   (state c userAddress = JUndefined \<longrightarrow>
      getNfts w userAddress network c = (Inr (JObj [(''data'', JArr [])]), c)) \<and>
   (truthy (getprop_opt (state c userAddress) ''jwtToken'') \<longrightarrow>
      getNfts w userAddress network c =
        (respond w (ApiGet (api w @ ''/nfts?userAddress='' @ js_string userAddress @
                            ''&network='' @ js_string network)
                      (Some (headers c JUndefined))),
         c\<lparr>calls := calls c @
               [ApiGet (api w @ ''/nfts?userAddress='' @ js_string userAddress @
                        ''&network='' @ js_string network)
                  (Some (headers c JUndefined))]\<rparr>))"
  by (simp add: getNfts_def api_request_def getprop_opt_def)

text \<open>
  The theorem at \<open>example_controller\<close>: \<open>0xb\<close> has an empty token and \<open>0xc\<close> no account
  state, so no call is made for them; \<open>0xa\<close> has a token, so the request goes out.
\<close>

theorem getNfts_token_guard_witness:
  "getNfts (example_world service_ok) (JStr ''0xb'') (JStr ''mainnet'') example_controller =
     (Inr (JObj [(''data'', JArr [])]), example_controller) \<and>
   getNfts (example_world service_ok) (JStr ''0xc'') (JStr ''mainnet'') example_controller =
     (Inr (JObj [(''data'', JArr [])]), example_controller) \<and>
   fst (getNfts (example_world service_ok) (JStr ''0xa'') (JStr ''mainnet'') example_controller) =
     Inr (JObj []) \<and>
   calls (snd (getNfts (example_world service_ok) (JStr ''0xa'') (JStr ''mainnet'') example_controller)) =
     [ApiGet ''https://api.tor.us/nfts?userAddress=0xa&network=mainnet'' (Some ''Bearer token-a'')]"
proof -
  have b: "\<not> truthy (getprop_opt (state example_controller (JStr ''0xb'')) ''jwtToken'')"
    using example_controller_selected by (simp add: getprop_opt_def)
  have c: "state example_controller (JStr ''0xc'') = JUndefined"
    by (simp add: state_def addressOrSelected_def getState_def example_controller_def
        new_controller_def js_or_def)
  have a: "truthy (getprop_opt (state example_controller (JStr ''0xa'')) ''jwtToken'')"
    using example_controller_selected by (simp add: getprop_opt_def)
  have h: "headers example_controller JUndefined = ''Bearer token-a''"
    using example_controller_selected
    by (simp add: headers_def Let_def state_addressOrSelected getprop_opt_def js_or_def)
  have w: "api (example_world service_ok) = ''https://api.tor.us''"
    "respond (example_world service_ok) call = Inr (JObj [])" for call
    by (simp_all add: example_world_def service_ok_def)
  have cs: "calls example_controller = []"
    by (simp add: example_controller_def new_controller_def)
  note t = getNfts_token_guard[of example_controller _ "example_world service_ok" "JStr ''mainnet''"]
  show ?thesis
    using t[of "JStr ''0xb''"] t[of "JStr ''0xc''"] t[of "JStr ''0xa''"] a b c
    by (simp add: h w cs)
qed

text \<open>
  Claim C9. When an account state is stored for the address, \<open>init\<close> returns that
  state's \<open>defaultPublicAddress\<close>, or the address when the field is empty, and the
  controller is exactly as before: no call was made and no store has changed.
\<close>

theorem init_known_address:
  assumes "truthy (state c address)"
  shows "init w address jwtToken calledFromEmbed userInfo rehydrate accountType postboxAddress
           customCurrency supportedCurrencies c =
         (Inr (if truthy (getprop (state c address) ''defaultPublicAddress'')
               then getprop (state c address) ''defaultPublicAddress''
               else address), c)"
  using assms by (simp add: init_def Let_def js_or_def)

text \<open>
  The theorem at \<open>example_controller\<close>: \<open>0xb\<close> has the default public address \<open>0xb0\<close>, \<open>0xa\<close>
  has none.
\<close>

theorem init_known_address_witness:
  "init (example_world service_down) (JStr ''0xb'') JUndefined JUndefined JUndefined JUndefined
     JUndefined JUndefined JUndefined JUndefined example_controller =
     (Inr (JStr ''0xb0''), example_controller) \<and>
   init (example_world service_down) (JStr ''0xa'') JUndefined JUndefined JUndefined JUndefined
     JUndefined JUndefined JUndefined JUndefined example_controller =
     (Inr (JStr ''0xa''), example_controller)"
  using init_known_address[of example_controller "JStr ''0xb''" "example_world service_down"]
    init_known_address[of example_controller "JStr ''0xa''" "example_world service_down"]
    example_controller_selected
  by simp

section \<open>Verification: the close button of PopupLogin\<close>

text \<open>
  Claim C7. \<open>closeDialog\<close> emits the event \<open>closeDialog\<close> to the parent and does nothing
  else; and a click on the close button of the dialog, while the dialog is shown, runs
  \<open>closeDialog\<close>.
\<close>

theorem close_button_emits:
  "closeDialog p = p\<lparr>emitted := emitted p @ [''closeDialog'']\<rparr> \<and>
   (loginDialog p \<and> showModal p \<longrightarrow> deliver outcome CloseBtn Click p = closeDialog p)"
  by (simp add: closeDialog_def deliver_def)

text \<open>The theorem at an open dialog.\<close>

theorem close_button_emits_witness:
  "deliver (Inr JUndefined) CloseBtn Click example_popup =
     example_popup\<lparr>emitted := [''closeDialog'']\<rparr>"
  using close_button_emits[of example_popup "Inr JUndefined"]
  by (simp add: example_popup_def)

end
